theory Spec2Isabelle
  imports Complex_Main "HOL-Library.Sublist"
begin

section \<open>Python values and the environment of the two scripts\<close>

text \<open>
  The two scripts, \<^verbatim>\<open>SAFE_CLEANUP_VERIFICATION_SYSTEM.py\<close> and
  \<^verbatim>\<open>TEST_ORCHESTRATION_SYSTEM.py\<close>, are sequential Python programs whose
  behaviour is decided by what the operating system answers: the result of a child
  process, whether a path exists, whether a directory change succeeds. The embedding
  keeps the control flow of each method and takes those answers from an environment.

  An exception is a value: its class and the text that \<^verbatim>\<open>str(e)\<close> gives.
  The calls made by the cleanup verifier raise subclasses of \<^verbatim>\<open>Exception\<close> only
  (what \<^verbatim>\<open>except Exception\<close> catches); an interrupt delivered from outside the
  program is not an outcome of any call made here. The probes of the test runner may
  raise other exceptions as well: see there. \<^verbatim>\<open>print\<close> is assumed not to raise, and its output is recorded
  only for \<^verbatim>\<open>run_test\<close>, where a claim refers to it.
\<close>

datatype exn_class =
  TimeoutExpired | CalledProcessError | KeyError | TypeError | ZeroDivisionError | OtherError

datatype py_exn = PyExn exn_class string

fun exn_class_of :: "py_exn \<Rightarrow> exn_class" where
  "exn_class_of (PyExn c m) = c"

fun str_exn :: "py_exn \<Rightarrow> string" where
  "str_exn (PyExn c m) = m"

text \<open>The object that \<^verbatim>\<open>subprocess.run\<close> returns (\<^verbatim>\<open>text=True\<close>: both streams are strings).\<close>

record completed =
  returncode :: int
  stdout :: string
  stderr :: string

text \<open>
  What \<^verbatim>\<open>json.loads\<close> can return. An object is an association list read with
  \<open>map_of\<close> (a dict has each key once); a number is an \<^verbatim>\<open>int\<close> or a
  \<^verbatim>\<open>float\<close>.
\<close>

datatype json =
  JNull
  | JBool bool
  | JInt int
  | JFloat rat
  | JString string
  | JArray "json list"
  | JObject "(string \<times> json) list"

text \<open>
  Every call that leaves the process is appended to a trace, and the environment answers
  a call from the trace so far and the call's arguments: the same command may succeed at
  one time and fail at another.
\<close>

datatype call =
  Run "string list"
  | PathExists string
  | Chdir string
  | WriteFile string

record env =
  subprocess_run :: "call list \<Rightarrow> string list \<Rightarrow> py_exn + completed"
  os_path_exists :: "call list \<Rightarrow> string \<Rightarrow> bool"
  os_chdir :: "call list \<Rightarrow> string \<Rightarrow> py_exn option"
  json_loads :: "string \<Rightarrow> py_exn + json"
  write_json :: "call list \<Rightarrow> string \<Rightarrow> py_exn option"

record world =
  trace :: "call list"
  cwd :: string

definition run :: "env \<Rightarrow> world \<Rightarrow> string list \<Rightarrow> (py_exn + completed) \<times> world" where
  "run e w argv = (subprocess_run e (trace w) argv, w\<lparr>trace := trace w @ [Run argv]\<rparr>)"

text \<open>
  \<^verbatim>\<open>subprocess.run(..., check=True)\<close>: a nonzero exit status raises
  \<^verbatim>\<open>CalledProcessError\<close>. Its message is abbreviated; no modelled code reads it.
\<close>

definition run_check :: "env \<Rightarrow> world \<Rightarrow> string list \<Rightarrow> (py_exn + completed) \<times> world" where
  "run_check e w argv =
     (case run e w argv of
        (Inl x, w') \<Rightarrow> (Inl x, w')
      | (Inr c, w') \<Rightarrow>
          (if returncode c \<noteq> 0
           then (Inl (PyExn CalledProcessError ''Command returned non-zero exit status''), w')
           else (Inr c, w')))"

definition path_exists :: "env \<Rightarrow> world \<Rightarrow> string \<Rightarrow> bool \<times> world" where
  "path_exists e w p = (os_path_exists e (trace w) p, w\<lparr>trace := trace w @ [PathExists p]\<rparr>)"

text \<open>
  \<^verbatim>\<open>os.path.join\<close> on two components, and \<^verbatim>\<open>os.chdir\<close>: when the call
  succeeds the working directory is the path asked for, taken relative to the old one
  unless it is absolute. Symbolic links and \<^verbatim>\<open>..\<close> are not resolved.
\<close>

definition os_path_join :: "string \<Rightarrow> string \<Rightarrow> string" where
  "os_path_join a b =
     (if b \<noteq> [] \<and> hd b = CHR ''/'' then b
      else if a = [] \<or> last a = CHR ''/'' then a @ b
      else a @ ''/'' @ b)"

definition chdir :: "env \<Rightarrow> world \<Rightarrow> string \<Rightarrow> py_exn option \<times> world" where
  "chdir e w p =
     (case os_chdir e (trace w) p of
        Some x \<Rightarrow> (Some x, w\<lparr>trace := trace w @ [Chdir p]\<rparr>)
      | None \<Rightarrow> (None, w\<lparr>trace := trace w @ [Chdir p], cwd := os_path_join (cwd w) p\<rparr>))"

subsection \<open>The Python operations applied to the parsed response\<close>

text \<open>Truth value of an object, as \<^verbatim>\<open>if data:\<close> tests it.\<close>

fun truthy :: "json \<Rightarrow> bool" where
  "truthy JNull = False"
| "truthy (JBool b) = b"
| "truthy (JInt n) = (n \<noteq> 0)"
| "truthy (JFloat q) = (q \<noteq> 0)"
| "truthy (JString s) = (s \<noteq> [])"
| "truthy (JArray xs) = (xs \<noteq> [])"
| "truthy (JObject kvs) = (kvs \<noteq> [])"

fun type_name :: "json \<Rightarrow> string" where
  "type_name JNull = ''NoneType''"
| "type_name (JBool b) = ''bool''"
| "type_name (JInt n) = ''int''"
| "type_name (JFloat q) = ''float''"
| "type_name (JString s) = ''str''"
| "type_name (JArray xs) = ''list''"
| "type_name (JObject kvs) = ''dict''"

text \<open>A string between single quotes, as the interpreter's messages show names.\<close>

definition quoted :: "string \<Rightarrow> string" where
  "quoted s = CHR 0x27 # s @ [CHR 0x27]"

text \<open>
  \<^verbatim>\<open>for repo in data\<close>: a list gives its elements, a dict its keys, a string its
  characters; nothing else is iterable. The wording of the interpreter's messages is
  CPython's; no theorem depends on it.
\<close>

fun py_iter :: "json \<Rightarrow> py_exn + json list" where
  "py_iter (JArray xs) = Inr xs"
| "py_iter (JObject kvs) = Inr (map (\<lambda>kv. JString (fst kv)) kvs)"
| "py_iter (JString s) = Inr (map (\<lambda>c. JString [c]) s)"
| "py_iter v = Inl (PyExn TypeError (quoted (type_name v) @ '' object is not iterable''))"

text \<open>\<^verbatim>\<open>obj[key]\<close> with a string key.\<close>

fun subscript :: "json \<Rightarrow> string \<Rightarrow> py_exn + json" where
  "subscript (JObject kvs) k =
     (case map_of kvs k of
        None \<Rightarrow> Inl (PyExn KeyError (quoted k))
      | Some v \<Rightarrow> Inr v)"
| "subscript (JString s) k = Inl (PyExn TypeError (''string indices must be integers, not '' @ quoted ''str''))"
| "subscript (JArray xs) k =
     Inl (PyExn TypeError ''list indices must be integers or slices, not str'')"
| "subscript v k = Inl (PyExn TypeError (quoted (type_name v) @ '' object is not subscriptable''))"

text \<open>\<^verbatim>\<open>repo['repository']['name']\<close>\<close>

definition repo_name :: "json \<Rightarrow> py_exn + json" where
  "repo_name repo =
     (case subscript repo ''repository'' of
        Inl x \<Rightarrow> Inl x
      | Inr r \<Rightarrow> subscript r ''name'')"

text \<open>The list comprehension: the first element that raises ends it.\<close>

fun repo_names :: "json list \<Rightarrow> py_exn + json list" where
  "repo_names [] = Inr []"
| "repo_names (repo # rest) =
     (case repo_name repo of
        Inl x \<Rightarrow> Inl x
      | Inr n \<Rightarrow> (case repo_names rest of Inl x \<Rightarrow> Inl x | Inr ns \<Rightarrow> Inr (n # ns)))"

text \<open>\<^verbatim>\<open>', '.join(repos)\<close>: every item has to be a string.\<close>

fun str_items :: "json list \<Rightarrow> py_exn + string list" where
  "str_items [] = Inr []"
| "str_items (JString s # rest) =
     (case str_items rest of Inl x \<Rightarrow> Inl x | Inr ss \<Rightarrow> Inr (s # ss))"
| "str_items (v # rest) =
     Inl (PyExn TypeError (''sequence item: expected str instance, '' @ type_name v @ '' found''))"

fun join_strings :: "string \<Rightarrow> string list \<Rightarrow> string" where
  "join_strings sep [] = []"
| "join_strings sep [s] = s"
| "join_strings sep (s # t # rest) = s @ sep @ join_strings sep (t # rest)"

definition str_join :: "string \<Rightarrow> json list \<Rightarrow> py_exn + string" where
  "str_join sep items =
     (case str_items items of Inl x \<Rightarrow> Inl x | Inr ss \<Rightarrow> Inr (join_strings sep ss))"

section \<open>SafeCleanupVerifier\<close>

definition github_org :: string where
  "github_org = ''Worldwidebro''"

subsection \<open>verify_file_in_github\<close>

definition search_argv :: "string \<Rightarrow> string list" where
  "search_argv filename =
     [''gh'', ''search'', ''code'', ''filename:'' @ filename,
      ''--owner'', github_org, ''--json'', ''repository'']"

text \<open>The body of the \<^verbatim>\<open>try\<close> block: \<open>Inl\<close> is an exception on its way to the handlers.\<close>

definition verify_try :: "env \<Rightarrow> world \<Rightarrow> string \<Rightarrow> (py_exn + bool \<times> string) \<times> world" where
  "verify_try e w filename =
     (case run e w (search_argv filename) of
        (Inl x, w') \<Rightarrow> (Inl x, w')
      | (Inr result, w') \<Rightarrow>
          (if returncode result = 0 then
             (case json_loads e (stdout result) of
                Inl x \<Rightarrow> (Inl x, w')
              | Inr data \<Rightarrow>
                  (if truthy data then
                     (case py_iter data of
                        Inl x \<Rightarrow> (Inl x, w')
                      | Inr items \<Rightarrow>
                          (case repo_names items of
                             Inl x \<Rightarrow> (Inl x, w')
                           | Inr repos \<Rightarrow>
                               (case str_join '', '' repos of
                                  Inl x \<Rightarrow> (Inl x, w')
                                | Inr s \<Rightarrow> (Inr (True, ''Found in repositories: '' @ s), w'))))
                   else (Inr (False, ''File not found in any GitHub repository''), w')))
           else (Inr (False, ''Search failed: '' @ stderr result), w')))"

text \<open>The two handlers, in the order of the source.\<close>

definition verify_file_in_github :: "env \<Rightarrow> world \<Rightarrow> string \<Rightarrow> (bool \<times> string) \<times> world" where
  "verify_file_in_github e w filename =
     (case verify_try e w filename of
        (Inr r, w') \<Rightarrow> (r, w')
      | (Inl x, w') \<Rightarrow>
          (if exn_class_of x = TimeoutExpired then ((False, ''Search timed out''), w')
           else ((False, ''Error searching: '' @ str_exn x), w')))"

subsection \<open>verify_multiple_files\<close>

text \<open>
  \<^verbatim>\<open>results[filename] = ...\<close> on a Python dict, which keeps insertion order: a key
  already present keeps its place and takes the new value, a new key goes to the end.
\<close>

fun dict_set :: "('k \<times> 'v) list \<Rightarrow> 'k \<Rightarrow> 'v \<Rightarrow> ('k \<times> 'v) list" where
  "dict_set [] k v = [(k, v)]"
| "dict_set ((k', v') # rest) k v =
     (if k' = k then (k, v) # rest else (k', v') # dict_set rest k v)"

fun verify_loop ::
  "env \<Rightarrow> string list \<Rightarrow> (string \<times> bool \<times> string) list \<times> world
     \<Rightarrow> (string \<times> bool \<times> string) list \<times> world" where
  "verify_loop e [] (results, w) = (results, w)"
| "verify_loop e (filename # rest) (results, w) =
     (case verify_file_in_github e w filename of
        (r, w') \<Rightarrow> verify_loop e rest (dict_set results filename r, w'))"

definition verify_multiple_files ::
  "env \<Rightarrow> world \<Rightarrow> string list \<Rightarrow> (string \<times> bool \<times> string) list \<times> world" where
  "verify_multiple_files e w filenames = verify_loop e filenames ([], w)"

subsection \<open>safe_cleanup_with_verification\<close>

record report =
  total_files :: int
  safe_to_delete :: int
  unsafe_to_delete :: int
  safe_files :: "(string \<times> string) list"
  unsafe_files :: "(string \<times> string) list"
  verification_timestamp :: string

text \<open>The loop over \<^verbatim>\<open>verification_results.items()\<close>, with the two lists it appends to.\<close>

fun categorize ::
  "(string \<times> bool \<times> string) list \<Rightarrow> (string \<times> string) list \<times> (string \<times> string) list
     \<Rightarrow> (string \<times> string) list \<times> (string \<times> string) list" where
  "categorize [] (safe, unsafe) = (safe, unsafe)"
| "categorize ((filename, pexists, message) # rest) (safe, unsafe) =
     (if pexists then categorize rest (safe @ [(filename, message)], unsafe)
      else categorize rest (safe, unsafe @ [(filename, message)]))"

text \<open>\<^verbatim>\<open>str.strip()\<close>, for the ASCII white space.\<close>

definition is_space :: "char \<Rightarrow> bool" where
  "is_space c = (c \<in> set [CHR '' '', CHR 0x09, CHR 0x0A, CHR 0x0B, CHR 0x0C, CHR 0x0D,
                            CHR 0x1C, CHR 0x1D, CHR 0x1E, CHR 0x1F])"

definition strip :: "string \<Rightarrow> string" where
  "strip s = rev (dropWhile is_space (rev (dropWhile is_space s)))"

definition write_file :: "env \<Rightarrow> world \<Rightarrow> string \<Rightarrow> py_exn option \<times> world" where
  "write_file e w name = (write_json e (trace w) name, w\<lparr>trace := trace w @ [WriteFile name]\<rparr>)"

text \<open>
  The \<^verbatim>\<open>date\<close> command and the write of the log are outside every \<^verbatim>\<open>try\<close>:
  an exception there leaves the method.
\<close>

definition safe_cleanup_with_verification ::
  "env \<Rightarrow> world \<Rightarrow> string list \<Rightarrow> (py_exn + report) \<times> world" where
  "safe_cleanup_with_verification e w files_to_cleanup =
     (case verify_multiple_files e w files_to_cleanup of
        (verification_results, w1) \<Rightarrow>
          (case categorize verification_results ([], []) of
             (safe, unsafe) \<Rightarrow>
               (case run e w1 [''date''] of
                  (Inl x, w2) \<Rightarrow> (Inl x, w2)
                | (Inr d, w2) \<Rightarrow>
                    (let rep = \<lparr>total_files = int (length files_to_cleanup),
                                safe_to_delete = int (length safe),
                                unsafe_to_delete = int (length unsafe),
                                safe_files = safe,
                                unsafe_files = unsafe,
                                verification_timestamp = strip (stdout d)\<rparr>
                     in (case write_file e w2 ''cleanup_verification_log.json'' of
                           (Some x, w3) \<Rightarrow> (Inl x, w3)
                         | (None, w3) \<Rightarrow> (Inr rep, w3))))))"

subsection \<open>restore_file_from_backup\<close>

definition backup_locations :: "string \<Rightarrow> string list" where
  "backup_locations filename =
     [''backups/'' @ filename,
      ''backup/'' @ filename,
      ''.git/objects/'',
      ''__pycache__/'' @ filename,
      ''temp/'' @ filename]"

text \<open>The bare \<^verbatim>\<open>except:\<close> around the copy catches whatever it raises.\<close>

fun restore_loop :: "env \<Rightarrow> world \<Rightarrow> string \<Rightarrow> string list \<Rightarrow> bool \<times> world" where
  "restore_loop e w filename [] = (False, w)"
| "restore_loop e w filename (location # rest) =
     (case path_exists e w location of
        (found, w1) \<Rightarrow>
          (if found then
             (case run_check e w1 [''cp'', location, filename] of
                (Inr c, w2) \<Rightarrow> (True, w2)
              | (Inl x, w2) \<Rightarrow> restore_loop e w2 filename rest)
           else restore_loop e w1 filename rest))"

definition restore_file_from_backup :: "env \<Rightarrow> world \<Rightarrow> string \<Rightarrow> bool \<times> world" where
  "restore_file_from_backup e w filename = restore_loop e w filename (backup_locations filename)"

subsection \<open>commit_file_to_github\<close>

text \<open>Sequencing inside a \<^verbatim>\<open>try\<close> block: an exception skips what follows.\<close>

definition then_do ::
  "(py_exn + 'a) \<times> world \<Rightarrow> (world \<Rightarrow> (py_exn + 'b) \<times> world) \<Rightarrow> (py_exn + 'b) \<times> world" where
  "then_do r k = (case r of (Inl x, w) \<Rightarrow> (Inl x, w) | (Inr v, w) \<Rightarrow> k w)"

definition chdir_raise :: "env \<Rightarrow> world \<Rightarrow> string \<Rightarrow> (py_exn + unit) \<times> world" where
  "chdir_raise e w p =
     (case chdir e w p of (Some x, w') \<Rightarrow> (Inl x, w') | (None, w') \<Rightarrow> (Inr (), w'))"

definition memU :: string where
  "memU = ''/Users/divinejohns/memU''"

text \<open>Lines 133 to 138: clone the repository unless its directory is there.\<close>

definition ensure_clone :: "env \<Rightarrow> world \<Rightarrow> string \<Rightarrow> (py_exn + unit) \<times> world" where
  "ensure_clone e w target_repo =
     (case path_exists e w (''temp_repos/'' @ target_repo) of
        (found, w1) \<Rightarrow>
          (if \<not> found then
             then_do (run_check e w1 [''mkdir'', ''-p'', ''temp_repos'']) (\<lambda>w2.
             then_do (run_check e w2 [''gh'', ''repo'', ''clone'',
                                      github_org @ ''/'' @ target_repo,
                                      ''temp_repos/'' @ target_repo]) (\<lambda>w3.
             (Inr (), w3)))
           else (Inr (), w1)))"

definition commit_try :: "env \<Rightarrow> world \<Rightarrow> string \<Rightarrow> string \<Rightarrow> (py_exn + bool) \<times> world" where
  "commit_try e w filename target_repo =
     then_do (ensure_clone e w target_repo) (\<lambda>w1.
     then_do (run_check e w1 [''cp'', filename, ''temp_repos/'' @ target_repo @ ''/'']) (\<lambda>w2.
     then_do (chdir_raise e w2 (''temp_repos/'' @ target_repo)) (\<lambda>w3.
     then_do (run_check e w3 [''git'', ''add'', filename]) (\<lambda>w4.
     then_do (run_check e w4 [''git'', ''commit'', ''-m'',
                              ''Add '' @ filename @ '' - orchestration system'']) (\<lambda>w5.
     then_do (run_check e w5 [''git'', ''push'']) (\<lambda>w6.
     then_do (chdir_raise e w6 memU) (\<lambda>w7.
     (Inr True, w7))))))))"

text \<open>
  The handler changes directory again; that call is not inside any \<^verbatim>\<open>try\<close>, so if it
  raises, the exception leaves the method.
\<close>

definition commit_file_to_github ::
  "env \<Rightarrow> world \<Rightarrow> string \<Rightarrow> string \<Rightarrow> (py_exn + bool) \<times> world" where
  "commit_file_to_github e w filename target_repo =
     (case commit_try e w filename target_repo of
        (Inr b, w') \<Rightarrow> (Inr b, w')
      | (Inl x, w') \<Rightarrow>
          (case chdir e w' memU of
             (Some y, w'') \<Rightarrow> (Inl y, w'')
           | (None, w'') \<Rightarrow> (Inr False, w'')))"

section \<open>OrchestrationSystemTester\<close>

text \<open>
  The three counters of the object. A probe is a callable without arguments: it acts on
  whatever is outside the tester (type \<open>'w\<close>) and returns a truth value or raises.
  A probe is code of its own and may raise anything, also what is not a subclass of
  \<^verbatim>\<open>Exception\<close> (\<^verbatim>\<open>sys.exit()\<close> raises \<^verbatim>\<open>SystemExit\<close>), which
  \<^verbatim>\<open>except Exception\<close> does not catch.
  The lines that \<^verbatim>\<open>run_test\<close> prints are kept as data, without their glyphs.
\<close>

record tester =
  total_tests :: int
  passed_tests :: int
  failed_tests :: int

datatype line =
  Running string
  | Passed string
  | Failed string
  | ErrorIn string string

datatype base_exn = SystemExit string | KeyboardInterrupt | GeneratorExit

datatype raised = Exc py_exn | Base base_exn

type_synonym 'w probe = "'w \<Rightarrow> (raised + bool) \<times> 'w"

record 'w state =
  self :: tester
  printed :: "line list"
  outside :: 'w

definition init :: tester where
  "init = \<lparr>total_tests = 0, passed_tests = 0, failed_tests = 0\<rparr>"

text \<open>
  Lines 23 to 41. \<open>Inl\<close> is what leaves the method: an exception of the probe that
  the handler of line 38 does not catch, after the count and the first line are done.
\<close>

definition run_test :: "'w state \<Rightarrow> string \<Rightarrow> 'w probe \<Rightarrow> (base_exn + bool) \<times> 'w state" where
  "run_test s test_name test_function =
     (let t1 = (self s)\<lparr>total_tests := total_tests (self s) + 1\<rparr>;
          out1 = printed s @ [Running test_name]
      in (case test_function (outside s) of
            (Inr result, w') \<Rightarrow>
              (if result then
                 (Inr True, \<lparr>self = t1\<lparr>passed_tests := passed_tests t1 + 1\<rparr>,
                             printed = out1 @ [Passed test_name], outside = w'\<rparr>)
               else
                 (Inr False, \<lparr>self = t1\<lparr>failed_tests := failed_tests t1 + 1\<rparr>,
                              printed = out1 @ [Failed test_name], outside = w'\<rparr>))
          | (Inl (Exc x), w') \<Rightarrow>
              (Inr False, \<lparr>self = t1\<lparr>failed_tests := failed_tests t1 + 1\<rparr>,
                           printed = out1 @ [ErrorIn test_name (str_exn x)], outside = w'\<rparr>)
          | (Inl (Base x), w') \<Rightarrow>
              (Inl x, \<lparr>self = t1, printed = out1, outside = w'\<rparr>)))"

text \<open>
  The loop of lines 273 to 275, for any list of named probes. An exception that leaves
  \<^verbatim>\<open>run_test\<close> leaves the loop, and the local dictionary is lost with it.
\<close>

fun run_tests ::
  "(string \<times> 'w probe) list \<Rightarrow> (string \<times> bool) list \<times> 'w state
     \<Rightarrow> (base_exn + (string \<times> bool) list) \<times> 'w state" where
  "run_tests [] (test_results, s) = (Inr test_results, s)"
| "run_tests ((test_name, test_function) # rest) (test_results, s) =
     (case run_test s test_name test_function of
        (Inl x, s') \<Rightarrow> (Inl x, s')
      | (Inr b, s') \<Rightarrow> run_tests rest (dict_set test_results test_name b, s'))"

text \<open>
  \<^verbatim>\<open>a / b\<close> on two integers and \<^verbatim>\<open>x * 100\<close> on a float. A float is a rational
  here, and each operation rounds its exact result with \<open>rnd\<close>, the rounding of the
  platform's floats, which is a parameter.
\<close>

definition truediv :: "(rat \<Rightarrow> rat) \<Rightarrow> int \<Rightarrow> int \<Rightarrow> py_exn + rat" where
  "truediv rnd a b =
     (if b = 0 then Inl (PyExn ZeroDivisionError ''division by zero'')
      else Inr (rnd (of_int a / of_int b)))"

definition float_mul :: "(rat \<Rightarrow> rat) \<Rightarrow> rat \<Rightarrow> rat \<Rightarrow> rat" where
  "float_mul rnd x y = rnd (x * y)"

text \<open>Line 283.\<close>

definition success_rate :: "(rat \<Rightarrow> rat) \<Rightarrow> int \<Rightarrow> int \<Rightarrow> py_exn + rat" where
  "success_rate rnd passed total_n =
     (if total_n > 0 then
        (case truediv rnd passed total_n of
           Inl x \<Rightarrow> Inl x
         | Inr q \<Rightarrow> Inr (float_mul rnd q 100))
      else Inr 0)"

record test_report =
  timestamp :: string
  report_total_tests :: int
  report_passed_tests :: int
  report_failed_tests :: int
  report_success_rate :: rat
  test_results :: "(string \<times> bool) list"
  system_status :: string

record test_env =
  float_round :: "rat \<Rightarrow> rat"
  now_isoformat :: string
  dump_report :: "py_exn option"

text \<open>
  Lines 272 to 290 for a list of named probes: the loop, the report, the write of the
  report (which may raise).
\<close>

definition run_suite ::
  "test_env \<Rightarrow> (string \<times> 'w probe) list \<Rightarrow> 'w state \<Rightarrow> (raised + test_report) \<times> 'w state" where
  "run_suite te tests s =
     (case run_tests tests ([], s) of
        (Inl x, s') \<Rightarrow> (Inl (Base x), s')
      | (Inr results, s') \<Rightarrow>
          (case success_rate (float_round te) (passed_tests (self s')) (total_tests (self s')) of
             Inl x \<Rightarrow> (Inl (Exc x), s')
           | Inr rate \<Rightarrow>
               (let rep = \<lparr>timestamp = now_isoformat te,
                           report_total_tests = total_tests (self s'),
                           report_passed_tests = passed_tests (self s'),
                           report_failed_tests = failed_tests (self s'),
                           report_success_rate = rate,
                           test_results = results,
                           system_status = (if failed_tests (self s') = 0 then ''healthy''
                                            else ''issues_detected'')\<rparr>
                in (case dump_report te of
                      Some x \<Rightarrow> (Inl (Exc x), s')
                    | None \<Rightarrow> (Inr rep, s')))))"

text \<open>
  The eleven probes of the suite are methods whose bodies import modules that are not
  part of the repository; they are taken as given.
\<close>

record 'w probes =
  test_file_structure :: "'w probe"
  test_cursor_rules :: "'w probe"
  test_system_health :: "'w probe"
  test_github_connectivity :: "'w probe"
  test_repository_verification :: "'w probe"
  test_orchestrator_import :: "'w probe"
  test_session_system_import :: "'w probe"
  test_integration_system_import :: "'w probe"
  test_orchestrator_functionality :: "'w probe"
  test_session_management :: "'w probe"
  test_integration_system :: "'w probe"

definition tests :: "'w probes \<Rightarrow> (string \<times> 'w probe) list" where
  "tests ps =
     [(''File Structure'', test_file_structure ps),
      (''Cursor Rules'', test_cursor_rules ps),
      (''System Health'', test_system_health ps),
      (''GitHub Connectivity'', test_github_connectivity ps),
      (''Repository Verification'', test_repository_verification ps),
      (''Orchestrator Import'', test_orchestrator_import ps),
      (''Session System Import'', test_session_system_import ps),
      (''Integration System Import'', test_integration_system_import ps),
      (''Orchestrator Functionality'', test_orchestrator_functionality ps),
      (''Session Management'', test_session_management ps),
      (''Integration System'', test_integration_system ps)]"

definition run_comprehensive_tests ::
  "test_env \<Rightarrow> 'w probes \<Rightarrow> 'w state \<Rightarrow> (raised + test_report) \<times> 'w state" where
  "run_comprehensive_tests te ps s = run_suite te (tests ps) s"

section \<open>Notions used to state the properties\<close>

text \<open>
  What a parsed response reports, in the words of the specification: a list of hits,
  each an object whose \<^verbatim>\<open>repository\<close> is an object with a string \<^verbatim>\<open>name\<close>.
  Any other value reports nothing: it is a malformed response.
\<close>

fun hit_repository :: "json \<Rightarrow> string option" where
  "hit_repository (JObject kvs) =
     (case map_of kvs ''repository'' of
        Some (JObject r) \<Rightarrow> (case map_of r ''name'' of Some (JString n) \<Rightarrow> Some n | _ \<Rightarrow> None)
      | _ \<Rightarrow> None)"
| "hit_repository v = None"

fun owning_repositories :: "json \<Rightarrow> string list option" where
  "owning_repositories (JArray hits) = those (map hit_repository hits)"
| "owning_repositories v = None"

text \<open>The three steps that build the text of a positive answer, taken together.\<close>

definition found_text :: "json \<Rightarrow> py_exn + string" where
  "found_text data =
     (case py_iter data of
        Inl x \<Rightarrow> Inl x
      | Inr items \<Rightarrow>
          (case repo_names items of
             Inl x \<Rightarrow> Inl x
           | Inr repos \<Rightarrow> str_join '', '' repos))"

text \<open>The distinct elements of a list, in the order of their first occurrence.\<close>

fun nub :: "'a list \<Rightarrow> 'a list" where
  "nub [] = []"
| "nub (x # xs) = x # filter (\<lambda>y. y \<noteq> x) (nub xs)"

text \<open>
  The two buckets as the specification describes them: the entries of the results whose
  verdict is true, and those whose verdict is false, each with its reason.
\<close>

definition safe_part :: "(string \<times> bool \<times> string) list \<Rightarrow> (string \<times> string) list" where
  "safe_part rs = map (\<lambda>r. (fst r, snd (snd r))) (filter (\<lambda>r. fst (snd r)) rs)"

definition unsafe_part :: "(string \<times> bool \<times> string) list \<Rightarrow> (string \<times> string) list" where
  "unsafe_part rs = map (\<lambda>r. (fst r, snd (snd r))) (filter (\<lambda>r. \<not> fst (snd r)) rs)"

text \<open>The names of the probes that were started, read off the printed lines.\<close>

fun started :: "line list \<Rightarrow> string list" where
  "started [] = []"
| "started (Running n # rest) = n # started rest"
| "started (l # rest) = started rest"

text \<open>What a list of probes does to the outside when each is called once, in order.\<close>

definition exec_probes :: "'w probe list \<Rightarrow> 'w \<Rightarrow> 'w" where
  "exec_probes ps w = fold (\<lambda>p w. snd (p w)) ps w"

text \<open>
  The steps of a publication, as the specification lists them, each looked at where the
  method makes it: a command has succeeded when it ran and exited with status 0; the
  clone is there, or \<^verbatim>\<open>mkdir\<close> and the clone both succeed; then the copy, the
  change into the clone, \<^verbatim>\<open>git add\<close>, \<^verbatim>\<open>git commit\<close>, \<^verbatim>\<open>git push\<close> and
  the change back. \<open>trace_at_push\<close> is the trace at which the push is made when
  everything before it has succeeded.
\<close>

definition step_ok :: "env \<Rightarrow> call list \<Rightarrow> string list \<Rightarrow> bool" where
  "step_ok e tr argv =
     (case subprocess_run e tr argv of Inl x \<Rightarrow> False | Inr c \<Rightarrow> returncode c = 0)"

definition clone_ok :: "env \<Rightarrow> world \<Rightarrow> string \<Rightarrow> bool" where
  "clone_ok e w target_repo =
     (os_path_exists e (trace w) (''temp_repos/'' @ target_repo)
      \<or> (step_ok e (trace w @ [PathExists (''temp_repos/'' @ target_repo)])
             [''mkdir'', ''-p'', ''temp_repos'']
         \<and> step_ok e (trace w @ [PathExists (''temp_repos/'' @ target_repo),
                                   Run [''mkdir'', ''-p'', ''temp_repos'']])
             [''gh'', ''repo'', ''clone'', github_org @ ''/'' @ target_repo,
              ''temp_repos/'' @ target_repo]))"

definition trace_at_copy :: "env \<Rightarrow> world \<Rightarrow> string \<Rightarrow> call list" where
  "trace_at_copy e w target_repo =
     (if os_path_exists e (trace w) (''temp_repos/'' @ target_repo)
      then trace w @ [PathExists (''temp_repos/'' @ target_repo)]
      else trace w @ [PathExists (''temp_repos/'' @ target_repo),
                      Run [''mkdir'', ''-p'', ''temp_repos''],
                      Run [''gh'', ''repo'', ''clone'', github_org @ ''/'' @ target_repo,
                           ''temp_repos/'' @ target_repo]])"

definition trace_at_push :: "env \<Rightarrow> world \<Rightarrow> string \<Rightarrow> string \<Rightarrow> call list" where
  "trace_at_push e w filename target_repo =
     trace_at_copy e w target_repo
       @ [Run [''cp'', filename, ''temp_repos/'' @ target_repo @ ''/''],
          Chdir (''temp_repos/'' @ target_repo),
          Run [''git'', ''add'', filename],
          Run [''git'', ''commit'', ''-m'', ''Add '' @ filename @ '' - orchestration system'']]"

definition publish_ok :: "env \<Rightarrow> world \<Rightarrow> string \<Rightarrow> string \<Rightarrow> bool" where
  "publish_ok e w filename target_repo =
     (clone_ok e w target_repo
      \<and> step_ok e (trace_at_copy e w target_repo)
            [''cp'', filename, ''temp_repos/'' @ target_repo @ ''/'']
      \<and> os_chdir e (trace_at_copy e w target_repo
                       @ [Run [''cp'', filename, ''temp_repos/'' @ target_repo @ ''/'']])
            (''temp_repos/'' @ target_repo) = None
      \<and> step_ok e (trace_at_copy e w target_repo
                      @ [Run [''cp'', filename, ''temp_repos/'' @ target_repo @ ''/''],
                         Chdir (''temp_repos/'' @ target_repo)])
            [''git'', ''add'', filename]
      \<and> step_ok e (trace_at_copy e w target_repo
                      @ [Run [''cp'', filename, ''temp_repos/'' @ target_repo @ ''/''],
                         Chdir (''temp_repos/'' @ target_repo),
                         Run [''git'', ''add'', filename]])
            [''git'', ''commit'', ''-m'', ''Add '' @ filename @ '' - orchestration system'']
      \<and> step_ok e (trace_at_push e w filename target_repo) [''git'', ''push'']
      \<and> os_chdir e (trace_at_push e w filename target_repo @ [Run [''git'', ''push'']]) memU
          = None)"

section \<open>Concrete environments\<close>

text \<open>
  A host that knows \<^verbatim>\<open>README.md\<close> in repository \<^verbatim>\<open>core\<close>, has no hit for
  \<^verbatim>\<open>ghost_file_12345.py\<close>, times out on \<^verbatim>\<open>slow.py\<close>, answers
  \<^verbatim>\<open>garbled.py\<close> with truncated output and refuses every other query.
\<close>

definition core_response :: string where
  \<open>core_response = ''[{"repository": {"name": "core"}}]''\<close>

definition github_demo :: env where
  "github_demo =
     \<lparr>subprocess_run = (\<lambda>tr argv.
        if argv = search_argv ''README.md'' then
          Inr \<lparr>returncode = 0, stdout = core_response, stderr = ''''\<rparr>
        else if argv = search_argv ''ghost_file_12345.py'' then
          Inr \<lparr>returncode = 0, stdout = ''[]'', stderr = ''''\<rparr>
        else if argv = search_argv ''slow.py'' then
          Inl (PyExn TimeoutExpired ''timed out after 30 seconds'')
        else if argv = search_argv ''garbled.py'' then
          Inr \<lparr>returncode = 0, stdout = ''[{'', stderr = ''''\<rparr>
        else if argv = [''date''] then
          Inr \<lparr>returncode = 0, stdout = ''Wed Nov  4 07:22:00 UTC 2026'' @ [CHR 0x0A], stderr = ''''\<rparr>
        else Inr \<lparr>returncode = 1, stdout = '''', stderr = ''HTTP 401''\<rparr>),
      os_path_exists = (\<lambda>tr p. False),
      os_chdir = (\<lambda>tr p. None),
      json_loads = (\<lambda>s.
        if s = core_response then
          Inr (JArray [JObject [(''repository'', JObject [(''name'', JString ''core'')])]])
        else if s = ''[]'' then Inr (JArray [])
        else Inl (PyExn OtherError ''Expecting value'')),
      write_json = (\<lambda>tr name. None)\<rparr>"

definition start :: world where
  "start = \<lparr>trace = [], cwd = memU\<rparr>"

text \<open>
  A host whose search times out the first time a query is made and finds the file in
  \<^verbatim>\<open>core\<close> when the same query is made again.
\<close>

definition flaky_demo :: env where
  "flaky_demo =
     \<lparr>subprocess_run = (\<lambda>tr argv.
        if argv = [''date''] then
          Inr \<lparr>returncode = 0, stdout = ''Wed Nov  4 07:22:00 UTC 2026'' @ [CHR 0x0A], stderr = ''''\<rparr>
        else if Run argv \<in> set tr then
          Inr \<lparr>returncode = 0, stdout = core_response, stderr = ''''\<rparr>
        else Inl (PyExn TimeoutExpired ''timed out after 30 seconds'')),
      os_path_exists = (\<lambda>tr p. False),
      os_chdir = (\<lambda>tr p. None),
      json_loads = (\<lambda>s.
        if s = core_response then
          Inr (JArray [JObject [(''repository'', JObject [(''name'', JString ''core'')])]])
        else Inl (PyExn OtherError ''Expecting value'')),
      write_json = (\<lambda>tr name. None)\<rparr>"


text \<open>The inputs and reports of the runs used below.\<close>

definition demo_files :: "string list" where
  "demo_files = [''README.md'', ''ghost_file_12345.py'']"

definition demo_report :: report where
  "demo_report =
     \<lparr>total_files = 2, safe_to_delete = 1, unsafe_to_delete = 1,
      safe_files = [(''README.md'', ''Found in repositories: core'')],
      unsafe_files = [(''ghost_file_12345.py'', ''File not found in any GitHub repository'')],
      verification_timestamp = ''Wed Nov  4 07:22:00 UTC 2026''\<rparr>"

definition flaky_files :: "string list" where
  "flaky_files = [''a.py'', ''b.py'', ''a.py'']"

definition flaky_report :: report where
  "flaky_report =
     \<lparr>total_files = 3, safe_to_delete = 1, unsafe_to_delete = 1,
      safe_files = [(''a.py'', ''Found in repositories: core'')],
      unsafe_files = [(''b.py'', ''Search timed out'')],
      verification_timestamp = ''Wed Nov  4 07:22:00 UTC 2026''\<rparr>"

definition order_files :: "string list" where
  "order_files = [''secret.py'', ''README.md'', ''ghost_file_12345.py'']"

definition order_report :: report where
  "order_report =
     \<lparr>total_files = 3, safe_to_delete = 1, unsafe_to_delete = 2,
      safe_files = [(''README.md'', ''Found in repositories: core'')],
      unsafe_files = [(''secret.py'', ''Search failed: HTTP 401''),
                      (''ghost_file_12345.py'', ''File not found in any GitHub repository'')],
      verification_timestamp = ''Wed Nov  4 07:22:00 UTC 2026''\<rparr>"

text \<open>
  A machine on which the clone of the target repository is already there and every
  command succeeds, except the one given as \<open>failing\<close>, which exits with status 1.
\<close>

definition publisher_demo :: "string list \<Rightarrow> env" where
  "publisher_demo failing =
     \<lparr>subprocess_run = (\<lambda>tr argv.
        if argv = failing then Inr \<lparr>returncode = 1, stdout = '''', stderr = ''rejected''\<rparr>
        else Inr \<lparr>returncode = 0, stdout = '''', stderr = ''''\<rparr>),
      os_path_exists = (\<lambda>tr p. True),
      os_chdir = (\<lambda>tr p. None),
      json_loads = (\<lambda>s. Inl (PyExn OtherError ''Expecting value'')),
      write_json = (\<lambda>tr name. None)\<rparr>"

text \<open>A process that was started in another directory.\<close>

definition elsewhere :: world where
  "elsewhere = \<lparr>trace = [], cwd = ''/tmp/work''\<rparr>"

text \<open>
  A working tree in which \<^verbatim>\<open>notes.txt\<close> is kept only under \<^verbatim>\<open>.git/objects/\<close>.
  That location is a directory, and \<^verbatim>\<open>cp\<close> without \<^verbatim>\<open>-r\<close> refuses a directory:
  it copies nothing and exits with status 1.
\<close>

definition git_objects_only :: env where
  "git_objects_only =
     \<lparr>subprocess_run = (\<lambda>tr argv.
        if argv = [''cp'', ''.git/objects/'', ''notes.txt''] then
          Inr \<lparr>returncode = 1, stdout = '''', stderr = ''cp: -r not specified; omitting directory''\<rparr>
        else Inr \<lparr>returncode = 0, stdout = '''', stderr = ''''\<rparr>),
      os_path_exists = (\<lambda>tr p. p \<in> set [''.git'', ''.git/objects'', ''.git/objects/'',
                                            ''.git/objects/notes.txt'']),
      os_chdir = (\<lambda>tr p. None),
      json_loads = (\<lambda>s. Inl (PyExn OtherError ''Expecting value'')),
      write_json = (\<lambda>tr name. None)\<rparr>"

text \<open>
  Three probes that log their name outside: one passes, one raises
  \<^verbatim>\<open>ImportError\<close>, one calls \<^verbatim>\<open>sys.exit(1)\<close>.
\<close>

definition passing :: "string \<Rightarrow> string list probe" where
  "passing n w = (Inr True, w @ [n])"

definition raising :: "string \<Rightarrow> string list probe" where
  "raising n w = (Inl (Exc (PyExn OtherError (''no module named '' @ n))), w @ [n])"

definition exiting :: "string \<Rightarrow> string list probe" where
  "exiting n w = (Inl (Base (SystemExit ''1'')), w @ [n])"

text \<open>The tester as \<^verbatim>\<open>__init__\<close> leaves it, with nothing printed yet.\<close>

definition fresh :: "'w \<Rightarrow> 'w state" where
  "fresh w = \<lparr>self = init, printed = [], outside = w\<rparr>"

text \<open>
  A rounding to the nearest multiple of \<open>1 / 2 ^ 52\<close>: one concrete rounding that
  is not the identity. The environment and the suite of the runs used below follow.
\<close>

definition round52 :: "rat \<Rightarrow> rat" where
  "round52 x = of_int (round (x * 2 ^ 52)) / 2 ^ 52"

definition flat_env :: test_env where
  "flat_env = \<lparr>float_round = round52, now_isoformat = ''2026-11-04T07:22:00'', dump_report = None\<rparr>"

definition small_suite :: "(string \<times> string list probe) list" where
  "small_suite =
     [(''File Structure'', passing ''File Structure''),
      (''Orchestrator Import'', raising ''Orchestrator Import''),
      (''System Health'', passing ''System Health''),
      (''Cursor Rules'', passing ''Cursor Rules'')]"

definition exit_suite :: "(string \<times> string list probe) list" where
  "exit_suite =
     [(''File Structure'', passing ''File Structure''),
      (''Orchestrator Import'', exiting ''Orchestrator Import''),
      (''System Health'', passing ''System Health'')]"

section \<open>Properties of verify_file_in_github\<close>

lemma repo_name_string: "repo_name h = Inr (JString n) \<longleftrightarrow> hit_repository h = Some n"
  apply (cases h)
  apply (auto simp: repo_name_def split: option.splits json.splits sum.splits)
  done

lemma str_items_Cons:
  "str_items (v # rest) = Inr names \<longleftrightarrow>
     (\<exists>n ns. v = JString n \<and> str_items rest = Inr ns \<and> names = n # ns)"
  by (cases v) (auto split: sum.splits)

lemma names_iff:
  "(\<exists>repos. repo_names hits = Inr repos \<and> str_items repos = Inr names)
     \<longleftrightarrow> those (map hit_repository hits) = Some names"
proof (induction hits arbitrary: names)
  case Nil
  show ?case by auto
next
  case (Cons h hits)
  show ?case
  proof
    assume "\<exists>repos. repo_names (h # hits) = Inr repos \<and> str_items repos = Inr names"
    then obtain repos where r: "repo_names (h # hits) = Inr repos" and s: "str_items repos = Inr names"
      by blast
    from r obtain v vs where v: "repo_name h = Inr v" and vs: "repo_names hits = Inr vs" and repos: "repos = v # vs"
      by (auto split: sum.splits)
    from s repos obtain n ns where n: "v = JString n" and ns: "str_items vs = Inr ns" and names: "names = n # ns"
      by (auto simp: str_items_Cons)
    from v n have "hit_repository h = Some n" by (simp add: repo_name_string)
    moreover from vs ns have "those (map hit_repository hits) = Some ns"
      using Cons.IH [of ns] by blast
    ultimately show "those (map hit_repository (h # hits)) = Some names"
      using names by simp
  next
    assume a: "those (map hit_repository (h # hits)) = Some names"
    then obtain n ns where n: "hit_repository h = Some n" and ns: "those (map hit_repository hits) = Some ns"
      and names: "names = n # ns"
      by (auto split: option.splits)
    from ns obtain vs where vs: "repo_names hits = Inr vs" and s: "str_items vs = Inr ns"
      using Cons.IH [of ns] by blast
    from n have "repo_name h = Inr (JString n)" by (simp add: repo_name_string)
    with vs s names show "\<exists>repos. repo_names (h # hits) = Inr repos \<and> str_items repos = Inr names"
      by simp
  qed
qed

lemma repo_name_JString: "repo_name (JString s) = Inl (PyExn TypeError (''string indices must be integers, not '' @ quoted ''str''))"
  by (simp add: repo_name_def)

lemma found_text_iff:
  assumes "truthy data"
  shows "found_text data = Inr s \<longleftrightarrow>
           (\<exists>names. owning_repositories data = Some names \<and> names \<noteq> [] \<and> s = join_strings '', '' names)"
proof (cases data)
  case (JArray hits)
  with assms have ne: "hits \<noteq> []" by simp
  have len: "those (map hit_repository hits) = Some names \<Longrightarrow> names \<noteq> []" for names
    using ne by (cases hits) (auto split: option.splits)
  show ?thesis
  proof
    assume "found_text data = Inr s"
    then obtain repos names where "repo_names hits = Inr repos" "str_items repos = Inr names"
        "s = join_strings '', '' names"
      using JArray by (auto simp: found_text_def str_join_def split: sum.splits)
    then show "\<exists>names. owning_repositories data = Some names \<and> names \<noteq> [] \<and> s = join_strings '', '' names"
      using names_iff [of hits names] len JArray by auto
  next
    assume "\<exists>names. owning_repositories data = Some names \<and> names \<noteq> [] \<and> s = join_strings '', '' names"
    then obtain names where "those (map hit_repository hits) = Some names" "s = join_strings '', '' names"
      using JArray by auto
    then show "found_text data = Inr s"
      using names_iff [of hits names] JArray by (auto simp: found_text_def str_join_def)
  qed
next
  case (JObject kvs)
  with assms obtain kv rest where "kvs = kv # rest" by (cases kvs) auto
  then show ?thesis using JObject by (simp add: found_text_def repo_name_JString)
next
  case (JString str)
  with assms obtain c rest where "str = c # rest" by (cases str) auto
  then show ?thesis using JString by (simp add: found_text_def repo_name_JString)
qed (simp_all add: found_text_def)


lemma verify_try_found_text:
  "verify_try e w filename =
     (case subprocess_run e (trace w) (search_argv filename) of
        Inl x \<Rightarrow> (Inl x, w\<lparr>trace := trace w @ [Run (search_argv filename)]\<rparr>)
      | Inr result \<Rightarrow>
          (if returncode result = 0 then
             (case json_loads e (stdout result) of
                Inl x \<Rightarrow> (Inl x, w\<lparr>trace := trace w @ [Run (search_argv filename)]\<rparr>)
              | Inr data \<Rightarrow>
                  (if truthy data then
                     (case found_text data of
                        Inl x \<Rightarrow> (Inl x, w\<lparr>trace := trace w @ [Run (search_argv filename)]\<rparr>)
                      | Inr s \<Rightarrow> (Inr (True, ''Found in repositories: '' @ s),
                                  w\<lparr>trace := trace w @ [Run (search_argv filename)]\<rparr>))
                   else (Inr (False, ''File not found in any GitHub repository''),
                         w\<lparr>trace := trace w @ [Run (search_argv filename)]\<rparr>)))
           else (Inr (False, ''Search failed: '' @ stderr result),
                 w\<lparr>trace := trace w @ [Run (search_argv filename)]\<rparr>)))"
  by (simp add: verify_try_def run_def found_text_def split: sum.splits)

lemma verify_world:
  "snd (verify_file_in_github e w filename) = w\<lparr>trace := trace w @ [Run (search_argv filename)]\<rparr>"
  by (simp add: verify_file_in_github_def verify_try_found_text split: sum.splits)

lemma owning_truthy:
  "owning_repositories data = Some names \<Longrightarrow> names \<noteq> [] \<Longrightarrow> truthy data"
  by (cases data) auto

lemma owning_Nil: "owning_repositories data = Some [] \<longleftrightarrow> data = JArray []"
proof (cases data)
  case (JArray hits)
  then show ?thesis by (cases hits) (auto split: option.splits)
qed simp_all

lemma verify_true_iff:
  "fst (fst (verify_file_in_github e w filename)) \<longleftrightarrow>
     (\<exists>c data names.
        subprocess_run e (trace w) (search_argv filename) = Inr c \<and> returncode c = 0 \<and>
        json_loads e (stdout c) = Inr data \<and>
        owning_repositories data = Some names \<and> names \<noteq> [])"
proof
  assume t: "fst (fst (verify_file_in_github e w filename))"
  then obtain c where c: "subprocess_run e (trace w) (search_argv filename) = Inr c"
    by (cases "subprocess_run e (trace w) (search_argv filename)")
       (auto simp: verify_file_in_github_def verify_try_found_text split: if_splits)
  with t have rc: "returncode c = 0"
    by (auto simp: verify_file_in_github_def verify_try_found_text split: if_splits)
  with t c obtain data where d: "json_loads e (stdout c) = Inr data"
    by (cases "json_loads e (stdout c)")
       (auto simp: verify_file_in_github_def verify_try_found_text split: if_splits)
  with t c rc have tr: "truthy data"
    by (auto simp: verify_file_in_github_def verify_try_found_text split: if_splits)
  with t c rc d obtain s where "found_text data = Inr s"
    by (cases "found_text data")
       (auto simp: verify_file_in_github_def verify_try_found_text split: if_splits)
  with tr obtain names where "owning_repositories data = Some names" "names \<noteq> []"
    using found_text_iff [of data s] by blast
  with c rc d show "\<exists>c data names.
        subprocess_run e (trace w) (search_argv filename) = Inr c \<and> returncode c = 0 \<and>
        json_loads e (stdout c) = Inr data \<and>
        owning_repositories data = Some names \<and> names \<noteq> []"
    by blast
next
  assume "\<exists>c data names.
        subprocess_run e (trace w) (search_argv filename) = Inr c \<and> returncode c = 0 \<and>
        json_loads e (stdout c) = Inr data \<and>
        owning_repositories data = Some names \<and> names \<noteq> []"
  then obtain c data names where c: "subprocess_run e (trace w) (search_argv filename) = Inr c"
    and rc: "returncode c = 0" and d: "json_loads e (stdout c) = Inr data"
    and o: "owning_repositories data = Some names" and ne: "names \<noteq> []"
    by blast
  have tr: "truthy data" using o ne by (rule owning_truthy)
  then have "found_text data = Inr (join_strings '', '' names)"
    using found_text_iff [of data "join_strings '', '' names"] o ne by blast
  with c rc d tr show "fst (fst (verify_file_in_github e w filename))"
    by (simp add: verify_file_in_github_def verify_try_found_text)
qed

lemma verify_found:
  assumes "subprocess_run e (trace w) (search_argv filename) = Inr c" "returncode c = 0"
    "json_loads e (stdout c) = Inr data" "owning_repositories data = Some names" "names \<noteq> []"
  shows "fst (verify_file_in_github e w filename) =
           (True, ''Found in repositories: '' @ join_strings '', '' names)"
proof -
  have tr: "truthy data" using assms(4,5) by (rule owning_truthy)
  then have "found_text data = Inr (join_strings '', '' names)"
    using found_text_iff [of data "join_strings '', '' names"] assms(4,5) by blast
  with assms tr show ?thesis
    by (simp add: verify_file_in_github_def verify_try_found_text)
qed

lemma verify_not_found:
  assumes "subprocess_run e (trace w) (search_argv filename) = Inr c" "returncode c = 0"
    "json_loads e (stdout c) = Inr data" "owning_repositories data = Some []"
  shows "fst (verify_file_in_github e w filename) =
           (False, ''File not found in any GitHub repository'')"
  using assms by (simp add: verify_file_in_github_def verify_try_found_text owning_Nil)

lemma verify_failed:
  assumes "subprocess_run e (trace w) (search_argv filename) = Inr c" "returncode c \<noteq> 0"
  shows "fst (verify_file_in_github e w filename) = (False, ''Search failed: '' @ stderr c)"
  using assms by (simp add: verify_file_in_github_def verify_try_found_text)

lemma verify_raised:
  assumes "subprocess_run e (trace w) (search_argv filename) = Inl x"
  shows "fst (verify_file_in_github e w filename) =
           (if exn_class_of x = TimeoutExpired then (False, ''Search timed out'')
            else (False, ''Error searching: '' @ str_exn x))"
  using assms by (simp add: verify_file_in_github_def verify_try_found_text)

lemma verify_unparseable:
  assumes "subprocess_run e (trace w) (search_argv filename) = Inr c" "returncode c = 0"
    "json_loads e (stdout c) = Inl x"
  shows "fst (verify_file_in_github e w filename) =
           (if exn_class_of x = TimeoutExpired then (False, ''Search timed out'')
            else (False, ''Error searching: '' @ str_exn x))"
  using assms by (simp add: verify_file_in_github_def verify_try_found_text)

lemma verify_malformed:
  assumes "subprocess_run e (trace w) (search_argv filename) = Inr c" "returncode c = 0"
    "json_loads e (stdout c) = Inr data" "owning_repositories data = None"
  shows "\<not> fst (fst (verify_file_in_github e w filename))"
  using assms verify_true_iff [of e w filename] by auto


text \<open>
  Claim C1. Whatever the query does, \<^verbatim>\<open>verify_file_in_github\<close> returns a pair
  of a truth value and a reason (its result type; both handlers together catch every
  exception of the \<^verbatim>\<open>try\<close> block). The truth value is true exactly when the
  query exits with status 0 and its output parses to a response that reports at least one
  owning repository; the reason then lists the repositories. It is false with the reason
  "File not found in any GitHub repository" when the response reports no repository,
  with "Search failed: ..." on a nonzero status, with "Search timed out" on a timeout,
  with "Error searching: ..." on any other exception of the query or of the parser, and
  false as well when the parsed response is malformed.
\<close>

theorem verify_file_in_github_fail_closed:
  "(fst (fst (verify_file_in_github e w filename)) \<longleftrightarrow>
      (\<exists>c data names.
         subprocess_run e (trace w) (search_argv filename) = Inr c \<and> returncode c = 0 \<and>
         json_loads e (stdout c) = Inr data \<and>
         owning_repositories data = Some names \<and> names \<noteq> []))
   \<and> (\<forall>c data names.
         subprocess_run e (trace w) (search_argv filename) = Inr c \<and> returncode c = 0 \<and>
         json_loads e (stdout c) = Inr data \<and>
         owning_repositories data = Some names \<and> names \<noteq> [] \<longrightarrow>
         fst (verify_file_in_github e w filename) =
           (True, ''Found in repositories: '' @ join_strings '', '' names))
   \<and> (\<forall>c data.
         subprocess_run e (trace w) (search_argv filename) = Inr c \<and> returncode c = 0 \<and>
         json_loads e (stdout c) = Inr data \<and> owning_repositories data = Some [] \<longrightarrow>
         fst (verify_file_in_github e w filename) =
           (False, ''File not found in any GitHub repository''))
   \<and> (\<forall>c.
         subprocess_run e (trace w) (search_argv filename) = Inr c \<and> returncode c \<noteq> 0 \<longrightarrow>
         fst (verify_file_in_github e w filename) = (False, ''Search failed: '' @ stderr c))
   \<and> (\<forall>x.
         subprocess_run e (trace w) (search_argv filename) = Inl x \<longrightarrow>
         fst (verify_file_in_github e w filename) =
           (if exn_class_of x = TimeoutExpired then (False, ''Search timed out'')
            else (False, ''Error searching: '' @ str_exn x)))
   \<and> (\<forall>c x.
         subprocess_run e (trace w) (search_argv filename) = Inr c \<and> returncode c = 0 \<and>
         json_loads e (stdout c) = Inl x \<longrightarrow>
         fst (verify_file_in_github e w filename) =
           (if exn_class_of x = TimeoutExpired then (False, ''Search timed out'')
            else (False, ''Error searching: '' @ str_exn x)))
   \<and> (\<forall>c data.
         subprocess_run e (trace w) (search_argv filename) = Inr c \<and> returncode c = 0 \<and>
         json_loads e (stdout c) = Inr data \<and> owning_repositories data = None \<longrightarrow>
         \<not> fst (fst (verify_file_in_github e w filename)))"
  using verify_true_iff [of e w filename] verify_found [of e w filename]
    verify_not_found [of e w filename] verify_failed [of e w filename]
    verify_raised [of e w filename] verify_unparseable [of e w filename]
    verify_malformed [of e w filename]
  by blast

lemma demo_runs:
  "subprocess_run github_demo [] (search_argv ''README.md'')
     = Inr \<lparr>returncode = 0, stdout = core_response, stderr = ''''\<rparr>"
  "subprocess_run github_demo [] (search_argv ''ghost_file_12345.py'')
     = Inr \<lparr>returncode = 0, stdout = ''[]'', stderr = ''''\<rparr>"
  "subprocess_run github_demo [] (search_argv ''slow.py'')
     = Inl (PyExn TimeoutExpired ''timed out after 30 seconds'')"
  "subprocess_run github_demo [] (search_argv ''garbled.py'')
     = Inr \<lparr>returncode = 0, stdout = ''[{'', stderr = ''''\<rparr>"
  "subprocess_run github_demo [] (search_argv ''secret.py'')
     = Inr \<lparr>returncode = 1, stdout = '''', stderr = ''HTTP 401''\<rparr>"
  by (simp_all add: github_demo_def search_argv_def)

lemma demo_loads:
  "json_loads github_demo core_response
     = Inr (JArray [JObject [(''repository'', JObject [(''name'', JString ''core'')])]])"
  "json_loads github_demo ''[]'' = Inr (JArray [])"
  "json_loads github_demo ''[{'' = Inl (PyExn OtherError ''Expecting value'')"
  by (simp_all add: github_demo_def core_response_def)

theorem verify_file_in_github_fail_closed_witness:
  "fst (verify_file_in_github github_demo start ''README.md'')
     = (True, ''Found in repositories: core'')
   \<and> fst (verify_file_in_github github_demo start ''ghost_file_12345.py'')
     = (False, ''File not found in any GitHub repository'')
   \<and> fst (verify_file_in_github github_demo start ''secret.py'')
     = (False, ''Search failed: HTTP 401'')
   \<and> fst (verify_file_in_github github_demo start ''slow.py'')
     = (False, ''Search timed out'')
   \<and> fst (verify_file_in_github github_demo start ''garbled.py'')
     = (False, ''Error searching: Expecting value'')"
proof -
  note t = verify_file_in_github_fail_closed
  show ?thesis
    using t [of github_demo start "''README.md''"]
      t [of github_demo start "''ghost_file_12345.py''"]
      t [of github_demo start "''secret.py''"]
      t [of github_demo start "''slow.py''"]
      t [of github_demo start "''garbled.py''"]
    by (simp add: start_def demo_runs demo_loads)
qed

section \<open>Properties of the dictionary and of the verification loop\<close>

lemma set_nub: "set (nub xs) = set xs"
  by (induction xs) auto

lemma distinct_nub: "distinct (nub xs)"
  by (induction xs) auto

lemma subseq_nub: "subseq (nub xs) xs"
proof (induction xs)
  case Nil
  show ?case by simp
next
  case (Cons x xs)
  have "subseq (filter (\<lambda>y. y \<noteq> x) (nub xs)) (nub xs)" by simp
  from this Cons.IH have "subseq (filter (\<lambda>y. y \<noteq> x) (nub xs)) xs"
    by (rule subseq_order.trans)
  then show ?case by simp
qed

lemma length_nub: "length (nub xs) = card (set xs)"
  using distinct_card [OF distinct_nub, of xs] by (simp add: set_nub)

lemma keys_dict_set_old: "k \<in> set (map fst d) \<Longrightarrow> map fst (dict_set d k v) = map fst d"
proof (induction d)
  case Nil
  then show ?case by simp
next
  case (Cons p d)
  show ?case
  proof (cases "fst p = k")
    case True
    then show ?thesis by (cases p) simp
  next
    case False
    with Cons.prems have "k \<in> set (map fst d)" by auto
    with False Cons.IH show ?thesis by (cases p) simp
  qed
qed

lemma keys_dict_set_new: "k \<notin> set (map fst d) \<Longrightarrow> map fst (dict_set d k v) = map fst d @ [k]"
  by (induction d) auto

lemma keys_dict_set:
  "map fst (dict_set d k v) = (if k \<in> set (map fst d) then map fst d else map fst d @ [k])"
  using keys_dict_set_old [of k d v] keys_dict_set_new [of k d v] by presburger

lemma map_of_dict_set: "map_of (dict_set d k v) = (map_of d)(k \<mapsto> v)"
  by (induction d) auto

lemma verify_loop_append:
  "verify_loop e (xs @ ys) acc = verify_loop e ys (verify_loop e xs acc)"
proof (induction xs arbitrary: acc)
  case Nil
  show ?case by (cases acc) simp
next
  case (Cons x xs)
  show ?case by (cases acc) (simp add: Cons.IH split: prod.splits)
qed

lemma verify_loop_keys:
  "map fst (fst (verify_loop e fs (res, w))) =
     map fst res @ filter (\<lambda>f. f \<notin> set (map fst res)) (nub fs)"
proof (induction fs arbitrary: res w)
  case Nil
  show ?case by simp
next
  case (Cons f fs)
  obtain r w' where v: "verify_file_in_github e w f = (r, w')"
    by (cases "verify_file_in_github e w f")
  have conj_filter: "filter P (filter Q xs) = filter (\<lambda>x. Q x \<and> P x) xs" for P Q and xs :: "string list"
    by (induction xs) auto
  show ?case
  proof (cases "f \<in> set (map fst res)")
    case True
    have "filter (\<lambda>g. g \<notin> set (map fst res)) (filter (\<lambda>y. y \<noteq> f) (nub fs))
            = filter (\<lambda>g. g \<notin> set (map fst res)) (nub fs)"
      using True unfolding conj_filter by (intro filter_cong) auto
    with True v show ?thesis by (simp add: Cons.IH keys_dict_set)
  next
    case False
    have "filter (\<lambda>g. g \<notin> set (map fst res) \<and> g \<noteq> f) (nub fs)
            = filter (\<lambda>g. g \<notin> set (map fst res)) (filter (\<lambda>y. y \<noteq> f) (nub fs))"
      unfolding conj_filter by (intro filter_cong) auto
    with False v show ?thesis by (simp add: Cons.IH keys_dict_set conj_commute)
  qed
qed

lemma verify_loop_world:
  "snd (verify_loop e fs (res, w)) = w\<lparr>trace := trace w @ map (\<lambda>f. Run (search_argv f)) fs\<rparr>"
proof (induction fs arbitrary: res w)
  case Nil
  show ?case by simp
next
  case (Cons f fs)
  obtain r w' where v: "verify_file_in_github e w f = (r, w')"
    by (cases "verify_file_in_github e w f")
  then have "w' = w\<lparr>trace := trace w @ [Run (search_argv f)]\<rparr>"
    using verify_world [of e w f] by simp
  with v show ?case by (simp add: Cons.IH)
qed

lemma verify_loop_untouched:
  "f \<notin> set fs \<Longrightarrow> map_of (fst (verify_loop e fs (res, w))) f = map_of res f"
proof (induction fs arbitrary: res w)
  case Nil
  show ?case by simp
next
  case (Cons g fs)
  obtain r w' where v: "verify_file_in_github e w g = (r, w')"
    by (cases "verify_file_in_github e w g")
  with Cons show ?case by (simp add: map_of_dict_set)
qed

lemma verify_loop_last:
  assumes "fs = pre @ f # post" "f \<notin> set post"
  shows "map_of (fst (verify_loop e fs (res, w))) f =
           Some (fst (verify_file_in_github e
                        (w\<lparr>trace := trace w @ map (\<lambda>f. Run (search_argv f)) pre\<rparr>) f))"
proof -
  obtain res1 w1 where l1: "verify_loop e pre (res, w) = (res1, w1)"
    by (cases "verify_loop e pre (res, w)")
  then have w1: "w1 = w\<lparr>trace := trace w @ map (\<lambda>f. Run (search_argv f)) pre\<rparr>"
    using verify_loop_world [of e pre res w] by simp
  obtain r w2 where v: "verify_file_in_github e w1 f = (r, w2)"
    by (cases "verify_file_in_github e w1 f")
  have "verify_loop e fs (res, w) = verify_loop e post (dict_set res1 f r, w2)"
    using assms(1) l1 v by (simp add: verify_loop_append)
  then have "map_of (fst (verify_loop e fs (res, w))) f = map_of (dict_set res1 f r) f"
    using verify_loop_untouched [OF assms(2)] by simp
  then show ?thesis using v w1 by (simp add: map_of_dict_set)
qed

lemma categorize_eq:
  "categorize rs (safe, unsafe) =
     (safe @ map (\<lambda>r. (fst r, snd (snd r))) (filter (\<lambda>r. fst (snd r)) rs),
      unsafe @ map (\<lambda>r. (fst r, snd (snd r))) (filter (\<lambda>r. \<not> fst (snd r)) rs))"
  by (induction rs "(safe, unsafe)" arbitrary: safe unsafe rule: categorize.induct) auto

section \<open>Properties of safe_cleanup_with_verification\<close>

lemma verify_multiple_files_keys:
  "map fst (fst (verify_multiple_files e w files)) = nub files"
  by (simp add: verify_multiple_files_def verify_loop_keys)

lemma verify_multiple_files_world:
  "snd (verify_multiple_files e w files) =
     w\<lparr>trace := trace w @ map (\<lambda>f. Run (search_argv f)) files\<rparr>"
  by (simp add: verify_multiple_files_def verify_loop_world)

lemma verify_multiple_files_last:
  assumes "files = pre @ f # post" "f \<notin> set post"
  shows "map_of (fst (verify_multiple_files e w files)) f =
           Some (fst (verify_file_in_github e
                        (w\<lparr>trace := trace w @ map (\<lambda>f. Run (search_argv f)) pre\<rparr>) f))"
  unfolding verify_multiple_files_def using assms by (rule verify_loop_last)

lemma categorize_parts: "categorize rs ([], []) = (safe_part rs, unsafe_part rs)"
  by (simp add: categorize_eq safe_part_def unsafe_part_def)

lemma names_safe_part: "map fst (safe_part rs) = map fst (filter (\<lambda>r. fst (snd r)) rs)"
  by (simp add: safe_part_def comp_def)

lemma names_unsafe_part: "map fst (unsafe_part rs) = map fst (filter (\<lambda>r. \<not> fst (snd r)) rs)"
  by (simp add: unsafe_part_def comp_def)

lemma length_parts: "length (safe_part rs) + length (unsafe_part rs) = length rs"
  by (simp add: safe_part_def unsafe_part_def sum_length_filter_compl)

lemma set_names_parts:
  "set (map fst (safe_part rs)) \<union> set (map fst (unsafe_part rs)) = set (map fst rs)"
  unfolding names_safe_part names_unsafe_part by auto

lemma filter_keys:
  "distinct (map fst rs) \<Longrightarrow>
     map fst (filter P rs) = filter (\<lambda>k. k \<in> set (map fst (filter P rs))) (map fst rs)"
proof (induction rs)
  case Nil
  show ?case by simp
next
  case (Cons r rs)
  define S where "S = set (map fst (filter P rs))"
  from Cons.prems have notin: "fst r \<notin> set (map fst rs)" and d: "distinct (map fst rs)"
    by simp_all
  have sub: "S \<subseteq> set (map fst rs)" unfolding S_def by auto
  have IH: "map fst (filter P rs) = filter (\<lambda>k. k \<in> S) (map fst rs)"
    unfolding S_def using d by (rule Cons.IH)
  show ?case
  proof (cases "P r")
    case True
    then have S': "set (map fst (filter P (r # rs))) = insert (fst r) S"
      unfolding S_def by simp
    have "(k \<in> insert (fst r) S) = (k \<in> S)" if "k \<in> set (map fst rs)" for k
      using that notin by blast
    then have "filter (\<lambda>k. k \<in> insert (fst r) S) (map fst rs) = filter (\<lambda>k. k \<in> S) (map fst rs)"
      by (rule filter_cong [OF refl])
    then have "filter (\<lambda>k. k \<in> insert (fst r) S) (map fst (r # rs))
                 = fst r # filter (\<lambda>k. k \<in> S) (map fst rs)"
      by simp
    moreover have "map fst (filter P (r # rs)) = fst r # map fst (filter P rs)"
      using True by simp
    ultimately show ?thesis unfolding S' using IH by simp
  next
    case False
    then have S': "set (map fst (filter P (r # rs))) = S"
      unfolding S_def by simp
    from notin sub have "fst r \<notin> S" by blast
    then have "filter (\<lambda>k. k \<in> S) (map fst (r # rs)) = filter (\<lambda>k. k \<in> S) (map fst rs)"
      by simp
    moreover have "map fst (filter P (r # rs)) = map fst (filter P rs)"
      using False by simp
    ultimately show ?thesis unfolding S' using IH by simp
  qed
qed

lemma distinct_names_parts:
  assumes "distinct (map fst rs)"
  shows "distinct (map fst (safe_part rs) @ map fst (unsafe_part rs))"
proof -
  have "set (map fst (filter (\<lambda>r. fst (snd r)) rs)) \<inter> set (map fst (filter (\<lambda>r. \<not> fst (snd r)) rs)) = {}"
  proof (rule ccontr)
    assume "\<not> ?thesis"
    then obtain k where k1: "k \<in> set (map fst (filter (\<lambda>r. fst (snd r)) rs))"
      and k2: "k \<in> set (map fst (filter (\<lambda>r. \<not> fst (snd r)) rs))"
      by blast
    from k1 have "\<exists>r\<in>set rs. fst (snd r) \<and> fst r = k" by auto
    then obtain r where r: "r \<in> set rs" "fst (snd r)" "fst r = k" by blast
    from k2 have "\<exists>r\<in>set rs. \<not> fst (snd r) \<and> fst r = k" by auto
    then obtain r' where r': "r' \<in> set rs" "\<not> fst (snd r')" "fst r' = k" by blast
    from assms have "inj_on fst (set rs)" by (simp add: distinct_map)
    with r r' have "r = r'" by (auto dest: inj_onD)
    with r r' show False by simp
  qed
  moreover have "distinct (map fst (filter P rs))" for P
    using assms by (rule distinct_map_filter)
  ultimately show ?thesis
    unfolding names_safe_part names_unsafe_part by simp
qed

lemma in_safe_part:
  "distinct (map fst rs) \<Longrightarrow> (f, m) \<in> set (safe_part rs) \<longleftrightarrow> map_of rs f = Some (True, m)"
  by (force simp: safe_part_def image_iff)

lemma in_unsafe_part:
  "distinct (map fst rs) \<Longrightarrow> (f, m) \<in> set (unsafe_part rs) \<longleftrightarrow> map_of rs f = Some (False, m)"
  by (force simp: unsafe_part_def image_iff)

lemma cleanup_report:
  assumes "safe_cleanup_with_verification e w files = (Inr rep, w')"
  shows "total_files rep = int (length files)"
    and "safe_files rep = safe_part (fst (verify_multiple_files e w files))"
    and "unsafe_files rep = unsafe_part (fst (verify_multiple_files e w files))"
    and "safe_to_delete rep = int (length (safe_files rep))"
    and "unsafe_to_delete rep = int (length (unsafe_files rep))"
    and "w' = w\<lparr>trace := trace w @ map (\<lambda>f. Run (search_argv f)) files
                            @ [Run [''date''], WriteFile ''cleanup_verification_log.json'']\<rparr>"
proof -
  obtain rs w1 where v: "verify_multiple_files e w files = (rs, w1)"
    by (cases "verify_multiple_files e w files")
  then have w1: "w1 = w\<lparr>trace := trace w @ map (\<lambda>f. Run (search_argv f)) files\<rparr>"
    using verify_multiple_files_world [of e w files] by simp
  from assms v obtain d where d: "subprocess_run e (trace w1) [''date''] = Inr d"
    by (cases "subprocess_run e (trace w1) [''date'']")
       (auto simp: safe_cleanup_with_verification_def categorize_parts run_def)
  from assms v d have
    rep: "rep = \<lparr>total_files = int (length files),
                 safe_to_delete = int (length (safe_part rs)),
                 unsafe_to_delete = int (length (unsafe_part rs)),
                 safe_files = safe_part rs,
                 unsafe_files = unsafe_part rs,
                 verification_timestamp = strip (stdout d)\<rparr>"
    and w': "w' = w1\<lparr>trace := trace w1 @ [Run [''date''], WriteFile ''cleanup_verification_log.json'']\<rparr>"
    by (auto simp: safe_cleanup_with_verification_def categorize_parts run_def write_file_def Let_def
             split: option.splits)
  from rep v show "total_files rep = int (length files)"
    and "safe_files rep = safe_part (fst (verify_multiple_files e w files))"
    and "unsafe_files rep = unsafe_part (fst (verify_multiple_files e w files))"
    and "safe_to_delete rep = int (length (safe_files rep))"
    and "unsafe_to_delete rep = int (length (unsafe_files rep))"
    by simp_all
  from w' w1 show "w' = w\<lparr>trace := trace w @ map (\<lambda>f. Run (search_argv f)) files
                            @ [Run [''date''], WriteFile ''cleanup_verification_log.json'']\<rparr>"
    by simp
qed

lemma cleanup_returns:
  assumes "subprocess_run e (trace w @ map (\<lambda>f. Run (search_argv f)) files) [''date''] = Inr d"
    and "write_json e (trace w @ map (\<lambda>f. Run (search_argv f)) files @ [Run [''date'']])
           ''cleanup_verification_log.json'' = None"
  shows "\<exists>rep w'. safe_cleanup_with_verification e w files = (Inr rep, w')"
proof -
  obtain rs w1 where v: "verify_multiple_files e w files = (rs, w1)"
    by (cases "verify_multiple_files e w files")
  then have w1: "w1 = w\<lparr>trace := trace w @ map (\<lambda>f. Run (search_argv f)) files\<rparr>"
    using verify_multiple_files_world [of e w files] by simp
  show ?thesis
    using assms v w1
    by (simp add: safe_cleanup_with_verification_def categorize_parts run_def write_file_def Let_def)
qed

lemma cleanup_names:
  assumes "safe_cleanup_with_verification e w files = (Inr rep, w')"
  shows "distinct (map fst (safe_files rep) @ map fst (unsafe_files rep))"
    and "set (map fst (safe_files rep)) \<union> set (map fst (unsafe_files rep)) = set files"
    and "length (safe_files rep) + length (unsafe_files rep) = card (set files)"
proof -
  let ?rs = "fst (verify_multiple_files e w files)"
  have keys: "map fst ?rs = nub files" by (rule verify_multiple_files_keys)
  then have d: "distinct (map fst ?rs)" by (simp add: distinct_nub)
  note f = cleanup_report(2,3) [OF assms]
  show "distinct (map fst (safe_files rep) @ map fst (unsafe_files rep))"
    unfolding f using d by (rule distinct_names_parts)
  show "set (map fst (safe_files rep)) \<union> set (map fst (unsafe_files rep)) = set files"
    unfolding f set_names_parts keys by (rule set_nub)
  have "length (safe_files rep) + length (unsafe_files rep) = length (map fst ?rs)"
    unfolding f length_parts by simp
  then show "length (safe_files rep) + length (unsafe_files rep) = card (set files)"
    unfolding keys by (simp add: length_nub)
qed


lemma flaky_run:
  "safe_cleanup_with_verification flaky_demo start [''a.py'', ''b.py'', ''a.py'']
     = (Inr \<lparr>total_files = 3, safe_to_delete = 1, unsafe_to_delete = 1,
              safe_files = [(''a.py'', ''Found in repositories: core'')],
              unsafe_files = [(''b.py'', ''Search timed out'')],
              verification_timestamp = ''Wed Nov  4 07:22:00 UTC 2026''\<rparr>,
        \<lparr>trace = [Run (search_argv ''a.py''), Run (search_argv ''b.py''), Run (search_argv ''a.py''),
                  Run [''date''], WriteFile ''cleanup_verification_log.json''],
         cwd = memU\<rparr>)"
  by (simp add: safe_cleanup_with_verification_def verify_multiple_files_def
        verify_file_in_github_def verify_try_def run_def write_file_def flaky_demo_def start_def
        core_response_def search_argv_def github_org_def repo_name_def str_join_def
        strip_def is_space_def)

lemma demo_run:
  "safe_cleanup_with_verification github_demo start [''README.md'', ''ghost_file_12345.py'']
     = (Inr \<lparr>total_files = 2, safe_to_delete = 1, unsafe_to_delete = 1,
              safe_files = [(''README.md'', ''Found in repositories: core'')],
              unsafe_files = [(''ghost_file_12345.py'', ''File not found in any GitHub repository'')],
              verification_timestamp = ''Wed Nov  4 07:22:00 UTC 2026''\<rparr>,
        \<lparr>trace = [Run (search_argv ''README.md''), Run (search_argv ''ghost_file_12345.py''),
                  Run [''date''], WriteFile ''cleanup_verification_log.json''],
         cwd = memU\<rparr>)"
  by (simp add: safe_cleanup_with_verification_def verify_multiple_files_def
        verify_file_in_github_def verify_try_def run_def write_file_def github_demo_def start_def
        core_response_def search_argv_def github_org_def repo_name_def str_join_def
        strip_def is_space_def)

lemma demo_run':
  "safe_cleanup_with_verification github_demo start demo_files
     = (Inr demo_report,
        \<lparr>trace = [Run (search_argv ''README.md''), Run (search_argv ''ghost_file_12345.py''),
                  Run [''date''], WriteFile ''cleanup_verification_log.json''],
         cwd = memU\<rparr>)"
  unfolding demo_files_def demo_report_def by (rule demo_run)

lemma flaky_run':
  "safe_cleanup_with_verification flaky_demo start flaky_files
     = (Inr flaky_report,
        \<lparr>trace = [Run (search_argv ''a.py''), Run (search_argv ''b.py''), Run (search_argv ''a.py''),
                  Run [''date''], WriteFile ''cleanup_verification_log.json''],
         cwd = memU\<rparr>)"
  unfolding flaky_files_def flaky_report_def by (rule flaky_run)


text \<open>
  Claim C2, as stated, fails: with the same filename twice in the input the two counts
  add up to 1 while \<^verbatim>\<open>total_files\<close> is 2.
\<close>

theorem cleanup_counts_counterexample:
  "safe_cleanup_with_verification github_demo start [''README.md'', ''README.md'']
     = (Inr \<lparr>total_files = 2, safe_to_delete = 1, unsafe_to_delete = 0,
              safe_files = [(''README.md'', ''Found in repositories: core'')],
              unsafe_files = [],
              verification_timestamp = ''Wed Nov  4 07:22:00 UTC 2026''\<rparr>,
        \<lparr>trace = [Run (search_argv ''README.md''), Run (search_argv ''README.md''),
                  Run [''date''], WriteFile ''cleanup_verification_log.json''],
         cwd = memU\<rparr>)"
  by (simp add: safe_cleanup_with_verification_def verify_multiple_files_def
        verify_file_in_github_def verify_try_def run_def write_file_def github_demo_def start_def
        core_response_def search_argv_def github_org_def repo_name_def str_join_def
        strip_def is_space_def)


text \<open>
  Claim C2, amended. Whenever \<^verbatim>\<open>safe_cleanup_with_verification\<close> returns a
  report: the two counts add up to the number of distinct filenames of the input, and
  to \<^verbatim>\<open>total_files\<close> (the length of the input) exactly when no filename is
  repeated; each count is the length of its bucket; no filename occurs twice in the two
  buckets taken together, and the filenames of the two buckets are exactly those of the
  input.
\<close>

theorem cleanup_partition:
  assumes "safe_cleanup_with_verification e w files = (Inr rep, w')"
  shows "safe_to_delete rep + unsafe_to_delete rep = int (card (set files))
       \<and> total_files rep = int (length files)
       \<and> (safe_to_delete rep + unsafe_to_delete rep = total_files rep \<longleftrightarrow> distinct files)
       \<and> safe_to_delete rep = int (length (safe_files rep))
       \<and> unsafe_to_delete rep = int (length (unsafe_files rep))
       \<and> distinct (map fst (safe_files rep) @ map fst (unsafe_files rep))
       \<and> set (map fst (safe_files rep)) \<union> set (map fst (unsafe_files rep)) = set files"
proof -
  have sum: "safe_to_delete rep + unsafe_to_delete rep = int (card (set files))"
    using cleanup_report(4,5) [OF assms] cleanup_names(3) [OF assms] by simp
  have total: "total_files rep = int (length files)"
    by (rule cleanup_report(1) [OF assms])
  have "card (set files) = length files \<longleftrightarrow> distinct files"
    by (metis card_distinct distinct_card)
  with sum total have "safe_to_delete rep + unsafe_to_delete rep = total_files rep \<longleftrightarrow> distinct files"
    by simp
  with sum total cleanup_report(4,5) [OF assms] cleanup_names(1,2) [OF assms]
  show ?thesis by simp
qed


theorem cleanup_partition_witness:
  "safe_to_delete demo_report + unsafe_to_delete demo_report = total_files demo_report
   \<and> distinct demo_files
   \<and> map fst (safe_files demo_report) @ map fst (unsafe_files demo_report) = demo_files"
  using cleanup_partition [OF demo_run']
  by (simp add: demo_report_def demo_files_def)


lemma order_run:
  "safe_cleanup_with_verification github_demo start order_files
     = (Inr order_report,
        \<lparr>trace = [Run (search_argv ''secret.py''), Run (search_argv ''README.md''),
                  Run (search_argv ''ghost_file_12345.py''),
                  Run [''date''], WriteFile ''cleanup_verification_log.json''],
         cwd = memU\<rparr>)"
  by (simp add: safe_cleanup_with_verification_def verify_multiple_files_def
        verify_file_in_github_def verify_try_def run_def write_file_def github_demo_def start_def
        core_response_def search_argv_def github_org_def repo_name_def str_join_def
        strip_def is_space_def order_files_def order_report_def)


text \<open>
  Claim C8. In a returned report the filenames of the safe bucket are the distinct
  filenames of the input, in the order of their first occurrence, restricted to that
  bucket; likewise for the unsafe bucket. In particular each bucket lists its filenames
  in an order in which they occur in the input.
\<close>

theorem buckets_keep_input_order:
  assumes "safe_cleanup_with_verification e w files = (Inr rep, w')"
  shows "map fst (safe_files rep) = filter (\<lambda>f. f \<in> set (map fst (safe_files rep))) (nub files)
       \<and> map fst (unsafe_files rep) = filter (\<lambda>f. f \<in> set (map fst (unsafe_files rep))) (nub files)
       \<and> subseq (map fst (safe_files rep)) files
       \<and> subseq (map fst (unsafe_files rep)) files"
proof -
  let ?rs = "fst (verify_multiple_files e w files)"
  have keys: "map fst ?rs = nub files" by (rule verify_multiple_files_keys)
  then have d: "distinct (map fst ?rs)" by (simp add: distinct_nub)
  note f = cleanup_report(2,3) [OF assms]
  have s: "map fst (safe_files rep) = filter (\<lambda>f. f \<in> set (map fst (safe_files rep))) (nub files)"
    unfolding f names_safe_part using filter_keys [OF d] unfolding keys .
  have u: "map fst (unsafe_files rep) = filter (\<lambda>f. f \<in> set (map fst (unsafe_files rep))) (nub files)"
    unfolding f names_unsafe_part using filter_keys [OF d] unfolding keys .
  have sub: "subseq (filter P (nub files)) files" for P
  proof -
    have "subseq (filter P (nub files)) (nub files)" by simp
    from this subseq_nub show ?thesis by (rule subseq_order.trans)
  qed
  from s sub have "subseq (map fst (safe_files rep)) files" by metis
  moreover from u sub have "subseq (map fst (unsafe_files rep)) files" by metis
  ultimately show ?thesis using s u by blast
qed


theorem buckets_keep_input_order_witness:
  "safe_cleanup_with_verification github_demo start
       [''secret.py'', ''README.md'', ''ghost_file_12345.py'']
     = (Inr \<lparr>total_files = 3, safe_to_delete = 1, unsafe_to_delete = 2,
              safe_files = [(''README.md'', ''Found in repositories: core'')],
              unsafe_files = [(''secret.py'', ''Search failed: HTTP 401''),
                              (''ghost_file_12345.py'',
                               ''File not found in any GitHub repository'')],
              verification_timestamp = ''Wed Nov  4 07:22:00 UTC 2026''\<rparr>,
        \<lparr>trace = [Run (search_argv ''secret.py''), Run (search_argv ''README.md''),
                  Run (search_argv ''ghost_file_12345.py''),
                  Run [''date''], WriteFile ''cleanup_verification_log.json''],
         cwd = memU\<rparr>)
   \<and> map fst (unsafe_files order_report) = [''secret.py'', ''ghost_file_12345.py'']
   \<and> map fst (safe_files order_report) = [''README.md'']
   \<and> nub order_files = [''secret.py'', ''README.md'', ''ghost_file_12345.py'']
   \<and> subseq [''secret.py'', ''ghost_file_12345.py'']
        [''secret.py'', ''README.md'', ''ghost_file_12345.py'']
   \<and> subseq [''README.md''] [''secret.py'', ''README.md'', ''ghost_file_12345.py'']"
proof -
  from buckets_keep_input_order [OF order_run]
  have "map fst (unsafe_files order_report)
          = filter (\<lambda>f. f \<in> set (map fst (unsafe_files order_report))) (nub order_files)"
    and "subseq (map fst (unsafe_files order_report)) order_files"
    and "subseq (map fst (safe_files order_report)) order_files"
    by blast+
  then show ?thesis
    using order_run by (simp add: order_report_def order_files_def)
qed


lemma cleanup_world:
  "snd (safe_cleanup_with_verification e w files) =
     (case subprocess_run e (trace w @ map (\<lambda>f. Run (search_argv f)) files) [''date''] of
        Inl x \<Rightarrow> w\<lparr>trace := trace w @ map (\<lambda>f. Run (search_argv f)) files @ [Run [''date'']]\<rparr>
      | Inr d \<Rightarrow> w\<lparr>trace := trace w @ map (\<lambda>f. Run (search_argv f)) files
                                @ [Run [''date''], WriteFile ''cleanup_verification_log.json'']\<rparr>)"
proof -
  obtain rs w1 where v: "verify_multiple_files e w files = (rs, w1)"
    by (cases "verify_multiple_files e w files")
  then have w1: "w1 = w\<lparr>trace := trace w @ map (\<lambda>f. Run (search_argv f)) files\<rparr>"
    using verify_multiple_files_world [of e w files] by simp
  show ?thesis
    using v w1
    by (simp add: safe_cleanup_with_verification_def categorize_parts run_def write_file_def
          Let_def split: sum.splits option.splits)
qed

lemma cleanup_queries_first:
  assumes "safe_cleanup_with_verification e w files = (out, w')"
  shows "prefix (trace w @ map (\<lambda>f. Run (search_argv f)) files @ [Run [''date'']]) (trace w')"
proof -
  from assms have "w' = snd (safe_cleanup_with_verification e w files)" by simp
  then show ?thesis
    unfolding cleanup_world by (auto split: sum.splits simp: prefix_def)
qed


text \<open>
  Claim C10. For every input list: \<^verbatim>\<open>verify_multiple_files\<close> runs the search once
  for every occurrence of a filename, in order, and nothing else; its results hold each
  distinct filename once, in the order of first occurrence, with the verdict of the query
  made for the last occurrence of that filename. \<^verbatim>\<open>safe_cleanup_with_verification\<close>
  makes these queries on every path, returns a report whenever the \<^verbatim>\<open>date\<close> command
  runs and the log can be written, and in a returned report no filename occurs twice in
  the two buckets together, the filenames of the buckets are those of the input, each
  filename is in the bucket of its last verdict, the two counts add up to the number of
  distinct filenames and \<^verbatim>\<open>total_files\<close> is the length of the input.
\<close>

theorem duplicates_keyed_by_filename:
  "snd (verify_multiple_files e w files)
     = w\<lparr>trace := trace w @ map (\<lambda>f. Run (search_argv f)) files\<rparr>
   \<and> map fst (fst (verify_multiple_files e w files)) = nub files
   \<and> (\<forall>pre f post.
         files = pre @ f # post \<and> f \<notin> set post \<longrightarrow>
         map_of (fst (verify_multiple_files e w files)) f
           = Some (fst (verify_file_in_github e
                          (w\<lparr>trace := trace w @ map (\<lambda>f. Run (search_argv f)) pre\<rparr>) f)))
   \<and> (\<forall>out w'. safe_cleanup_with_verification e w files = (out, w') \<longrightarrow>
         prefix (trace w @ map (\<lambda>f. Run (search_argv f)) files @ [Run [''date'']]) (trace w'))
   \<and> (\<forall>d. subprocess_run e (trace w @ map (\<lambda>f. Run (search_argv f)) files) [''date''] = Inr d
            \<and> write_json e (trace w @ map (\<lambda>f. Run (search_argv f)) files @ [Run [''date'']])
                  ''cleanup_verification_log.json'' = None \<longrightarrow>
         (\<exists>rep w'. safe_cleanup_with_verification e w files = (Inr rep, w')))
   \<and> (\<forall>rep w'. safe_cleanup_with_verification e w files = (Inr rep, w') \<longrightarrow>
         trace w' = trace w @ map (\<lambda>f. Run (search_argv f)) files
                      @ [Run [''date''], WriteFile ''cleanup_verification_log.json'']
         \<and> (\<forall>pre f post b m.
               files = pre @ f # post \<and> f \<notin> set post \<and>
               fst (verify_file_in_github e
                      (w\<lparr>trace := trace w @ map (\<lambda>f. Run (search_argv f)) pre\<rparr>) f) = (b, m) \<longrightarrow>
               (f, m) \<in> set (if b then safe_files rep else unsafe_files rep))
         \<and> distinct (map fst (safe_files rep) @ map fst (unsafe_files rep))
         \<and> set (map fst (safe_files rep)) \<union> set (map fst (unsafe_files rep)) = set files
         \<and> safe_to_delete rep + unsafe_to_delete rep = int (card (set files))
         \<and> total_files rep = int (length files))"
proof -
  let ?rs = "fst (verify_multiple_files e w files)"
  have keys: "map fst ?rs = nub files" by (rule verify_multiple_files_keys)
  then have d: "distinct (map fst ?rs)" by (simp add: distinct_nub)
  have world: "snd (verify_multiple_files e w files)
                 = w\<lparr>trace := trace w @ map (\<lambda>f. Run (search_argv f)) files\<rparr>"
    by (rule verify_multiple_files_world)
  have lastv: "\<forall>pre f post.
         files = pre @ f # post \<and> f \<notin> set post \<longrightarrow>
         map_of ?rs f
           = Some (fst (verify_file_in_github e
                          (w\<lparr>trace := trace w @ map (\<lambda>f. Run (search_argv f)) pre\<rparr>) f))"
    using verify_multiple_files_last [of files _ _ _ e w] by blast
  have pre: "\<forall>out w'. safe_cleanup_with_verification e w files = (out, w') \<longrightarrow>
         prefix (trace w @ map (\<lambda>f. Run (search_argv f)) files @ [Run [''date'']]) (trace w')"
    using cleanup_queries_first by blast
  have ret: "\<forall>d. subprocess_run e (trace w @ map (\<lambda>f. Run (search_argv f)) files) [''date''] = Inr d
            \<and> write_json e (trace w @ map (\<lambda>f. Run (search_argv f)) files @ [Run [''date'']])
                  ''cleanup_verification_log.json'' = None \<longrightarrow>
         (\<exists>rep w'. safe_cleanup_with_verification e w files = (Inr rep, w'))"
    using cleanup_returns [of e w files] by blast
  have rep: "trace w' = trace w @ map (\<lambda>f. Run (search_argv f)) files
                      @ [Run [''date''], WriteFile ''cleanup_verification_log.json'']
         \<and> (\<forall>pre f post b m.
               files = pre @ f # post \<and> f \<notin> set post \<and>
               fst (verify_file_in_github e
                      (w\<lparr>trace := trace w @ map (\<lambda>f. Run (search_argv f)) pre\<rparr>) f) = (b, m) \<longrightarrow>
               (f, m) \<in> set (if b then safe_files rep else unsafe_files rep))
         \<and> distinct (map fst (safe_files rep) @ map fst (unsafe_files rep))
         \<and> set (map fst (safe_files rep)) \<union> set (map fst (unsafe_files rep)) = set files
         \<and> safe_to_delete rep + unsafe_to_delete rep = int (card (set files))
         \<and> total_files rep = int (length files)"
    if r: "safe_cleanup_with_verification e w files = (Inr rep, w')" for rep w'
  proof -
    note f = cleanup_report(2,3) [OF r]
    have tr: "trace w' = trace w @ map (\<lambda>f. Run (search_argv f)) files
                      @ [Run [''date''], WriteFile ''cleanup_verification_log.json'']"
      using cleanup_report(6) [OF r] by simp
    have last: "(g, m) \<in> set (if b then safe_files rep else unsafe_files rep)"
      if "files = pre @ g # post" "g \<notin> set post"
        "fst (verify_file_in_github e
                (w\<lparr>trace := trace w @ map (\<lambda>f. Run (search_argv f)) pre\<rparr>) g) = (b, m)"
      for pre g post b m
    proof -
      have "map_of ?rs g = Some (b, m)"
        using verify_multiple_files_last [OF that(1,2), of e w] that(3) by simp
      then show ?thesis
        unfolding f using in_safe_part [OF d, of g m] in_unsafe_part [OF d, of g m]
        by (cases b) simp_all
    qed
    have sum: "safe_to_delete rep + unsafe_to_delete rep = int (card (set files))"
      using cleanup_report(4,5) [OF r] cleanup_names(3) [OF r] by simp
    show ?thesis
    proof (intro conjI allI impI)
      fix pre g post b m
      assume "files = pre @ g # post \<and> g \<notin> set post \<and>
               fst (verify_file_in_github e
                      (w\<lparr>trace := trace w @ map (\<lambda>f. Run (search_argv f)) pre\<rparr>) g) = (b, m)"
      then show "(g, m) \<in> set (if b then safe_files rep else unsafe_files rep)"
        using last [of pre g post b m] by simp
    qed (use tr sum cleanup_names(1,2) [OF r] cleanup_report(1) [OF r] in simp_all)
  qed
  show ?thesis
    apply (intro conjI)
    apply (fact world keys lastv pre ret)+
    using rep apply blast
    done
qed

theorem duplicates_keyed_by_filename_witness:
  "safe_cleanup_with_verification flaky_demo start [''a.py'', ''b.py'', ''a.py'']
     = (Inr \<lparr>total_files = 3, safe_to_delete = 1, unsafe_to_delete = 1,
              safe_files = [(''a.py'', ''Found in repositories: core'')],
              unsafe_files = [(''b.py'', ''Search timed out'')],
              verification_timestamp = ''Wed Nov  4 07:22:00 UTC 2026''\<rparr>,
        \<lparr>trace = [Run (search_argv ''a.py''), Run (search_argv ''b.py''),
                  Run (search_argv ''a.py''),
                  Run [''date''], WriteFile ''cleanup_verification_log.json''],
         cwd = memU\<rparr>)
   \<and> fst (verify_file_in_github flaky_demo start ''a.py'') = (False, ''Search timed out'')
   \<and> fst (verify_file_in_github flaky_demo
            (start\<lparr>trace := trace start @ map (\<lambda>f. Run (search_argv f)) [''a.py'', ''b.py'']\<rparr>)
            ''a.py'')
       = (True, ''Found in repositories: core'')
   \<and> fst (verify_multiple_files flaky_demo start [''a.py'', ''b.py'', ''a.py''])
       = [(''a.py'', True, ''Found in repositories: core''), (''b.py'', False, ''Search timed out'')]"
proof -
  have v: "fst (verify_file_in_github flaky_demo
            (start\<lparr>trace := trace start @ map (\<lambda>f. Run (search_argv f)) [''a.py'', ''b.py'']\<rparr>)
            ''a.py'')
       = (True, ''Found in repositories: core'')"
    by (simp add: verify_file_in_github_def verify_try_def run_def flaky_demo_def start_def
          core_response_def search_argv_def github_org_def repo_name_def str_join_def)
  have v0: "fst (verify_file_in_github flaky_demo start ''a.py'') = (False, ''Search timed out'')"
    by (simp add: verify_file_in_github_def verify_try_def run_def flaky_demo_def start_def
          core_response_def search_argv_def github_org_def repo_name_def str_join_def)
  have vm: "fst (verify_multiple_files flaky_demo start [''a.py'', ''b.py'', ''a.py''])
       = [(''a.py'', True, ''Found in repositories: core''), (''b.py'', False, ''Search timed out'')]"
    by (simp add: verify_multiple_files_def verify_file_in_github_def verify_try_def run_def
          flaky_demo_def start_def core_response_def search_argv_def github_org_def
          repo_name_def str_join_def)
  have split: "flaky_files = [''a.py'', ''b.py''] @ ''a.py'' # []"
    by (simp add: flaky_files_def)
  note t = duplicates_keyed_by_filename [of flaky_demo start flaky_files]
  have "map_of (fst (verify_multiple_files flaky_demo start flaky_files)) ''a.py''
          = Some (True, ''Found in repositories: core'')"
    using t [THEN conjunct2, THEN conjunct2, THEN conjunct1, rule_format,
             of "[''a.py'', ''b.py'']" "''a.py''" "[]"] split v
    by simp
  then show ?thesis
    using flaky_run' v v0 vm by (simp add: flaky_files_def flaky_report_def)
qed

text \<open>
  Claim C5. For the input \<^verbatim>\<open>["README.md", "ghost_file_12345.py"]\<close>, when the
  search for the first file succeeds and reports the repository \<^verbatim>\<open>core\<close> and the
  search for the second succeeds and reports nothing, a returned report has
  \<^verbatim>\<open>total_files\<close> 2, a safe bucket holding exactly
  \<^verbatim>\<open>("README.md", "Found in repositories: core")\<close> and an unsafe bucket holding
  exactly \<^verbatim>\<open>("ghost_file_12345.py", "File not found in any GitHub repository")\<close>,
  with both counts 1.
\<close>

theorem readme_and_ghost_report:
  assumes "subprocess_run e (trace w) (search_argv ''README.md'') = Inr c1"
    and "returncode c1 = 0"
    and "json_loads e (stdout c1) = Inr d1"
    and "owning_repositories d1 = Some [''core'']"
    and "subprocess_run e (trace w @ [Run (search_argv ''README.md'')])
           (search_argv ''ghost_file_12345.py'') = Inr c2"
    and "returncode c2 = 0"
    and "json_loads e (stdout c2) = Inr d2"
    and "owning_repositories d2 = Some []"
    and "safe_cleanup_with_verification e w [''README.md'', ''ghost_file_12345.py''] = (Inr rep, w')"
  shows "total_files rep = 2
       \<and> safe_to_delete rep = 1
       \<and> safe_files rep = [(''README.md'', ''Found in repositories: core'')]
       \<and> unsafe_to_delete rep = 1
       \<and> unsafe_files rep = [(''ghost_file_12345.py'', ''File not found in any GitHub repository'')]"
proof -
  let ?w1 = "w\<lparr>trace := trace w @ [Run (search_argv ''README.md'')]\<rparr>"
  let ?w2 = "?w1\<lparr>trace := trace ?w1 @ [Run (search_argv ''ghost_file_12345.py'')]\<rparr>"
  have "fst (verify_file_in_github e w ''README.md'') = (True, ''Found in repositories: core'')"
    using verify_found [OF assms(1-4)] by simp
  then have v1: "verify_file_in_github e w ''README.md''
                   = ((True, ''Found in repositories: core''), ?w1)"
    using verify_world [of e w "''README.md''"] by (simp add: prod_eq_iff)
  have "fst (verify_file_in_github e ?w1 ''ghost_file_12345.py'')
          = (False, ''File not found in any GitHub repository'')"
    using verify_not_found [of e ?w1 "''ghost_file_12345.py''" c2 d2] assms(5-8) by simp
  then have v2: "verify_file_in_github e ?w1 ''ghost_file_12345.py''
                   = ((False, ''File not found in any GitHub repository''), ?w2)"
    using verify_world [of e ?w1 "''ghost_file_12345.py''"] by (simp add: prod_eq_iff)
  have rs: "fst (verify_multiple_files e w [''README.md'', ''ghost_file_12345.py''])
              = [(''README.md'', True, ''Found in repositories: core''),
                 (''ghost_file_12345.py'', False, ''File not found in any GitHub repository'')]"
    by (simp add: verify_multiple_files_def v1 v2)
  show ?thesis
    using cleanup_report(1-5) [OF assms(9)] unfolding rs
    by (simp add: safe_part_def unsafe_part_def)
qed


theorem readme_and_ghost_report_witness:
  "safe_cleanup_with_verification github_demo start [''README.md'', ''ghost_file_12345.py'']
     = (Inr demo_report,
        \<lparr>trace = [Run (search_argv ''README.md''), Run (search_argv ''ghost_file_12345.py''),
                  Run [''date''], WriteFile ''cleanup_verification_log.json''],
         cwd = memU\<rparr>)
   \<and> total_files demo_report = 2
   \<and> safe_to_delete demo_report = 1
   \<and> safe_files demo_report = [(''README.md'', ''Found in repositories: core'')]
   \<and> unsafe_to_delete demo_report = 1
   \<and> unsafe_files demo_report
       = [(''ghost_file_12345.py'', ''File not found in any GitHub repository'')]"
proof -
  have r1: "subprocess_run github_demo (trace start) (search_argv ''README.md'')
              = Inr \<lparr>returncode = 0, stdout = core_response, stderr = ''''\<rparr>"
    by (simp add: github_demo_def)
  have r2: "subprocess_run github_demo (trace start @ [Run (search_argv ''README.md'')])
              (search_argv ''ghost_file_12345.py'')
              = Inr \<lparr>returncode = 0, stdout = ''[]'', stderr = ''''\<rparr>"
    by (simp add: github_demo_def search_argv_def)
  have run: "safe_cleanup_with_verification github_demo start [''README.md'', ''ghost_file_12345.py'']
     = (Inr demo_report,
        \<lparr>trace = [Run (search_argv ''README.md''), Run (search_argv ''ghost_file_12345.py''),
                  Run [''date''], WriteFile ''cleanup_verification_log.json''],
         cwd = memU\<rparr>)"
    using demo_run' by (simp add: demo_files_def)
  from readme_and_ghost_report [OF r1 _ _ _ r2 _ _ _ run,
      of "JArray [JObject [(''repository'', JObject [(''name'', JString ''core'')])]]" "JArray []"]
  show ?thesis using run by (simp add: demo_loads)
qed
section \<open>Properties of restore_file_from_backup\<close>

text \<open>
  What holds of the scan: when no candidate exists nothing is copied and the result is
  false; an existing candidate whose copy succeeds ends the scan with true; an existing
  candidate whose copy exits with a nonzero status is skipped.
\<close>

lemma restore_loop_none:
  assumes "\<forall>loc\<in>set locs. \<forall>tr. \<not> os_path_exists e tr loc"
  shows "restore_loop e w filename locs = (False, w\<lparr>trace := trace w @ map PathExists locs\<rparr>)"
  using assms
proof (induction locs arbitrary: w)
  case Nil
  show ?case by simp
next
  case (Cons loc locs)
  then show ?case by (simp add: path_exists_def)
qed

lemma restore_none:
  assumes "\<forall>loc\<in>set (backup_locations filename). \<forall>tr. \<not> os_path_exists e tr loc"
  shows "restore_file_from_backup e w filename
           = (False, w\<lparr>trace := trace w @ map PathExists (backup_locations filename)\<rparr>)"
  unfolding restore_file_from_backup_def using assms by (rule restore_loop_none)

lemma restore_first_copy:
  assumes "os_path_exists e (trace w) loc"
    and "subprocess_run e (trace w @ [PathExists loc]) [''cp'', loc, filename] = Inr c"
    and "returncode c = 0"
  shows "restore_loop e w filename (loc # rest)
           = (True, w\<lparr>trace := trace w @ [PathExists loc, Run [''cp'', loc, filename]]\<rparr>)"
  using assms by (simp add: path_exists_def run_check_def run_def)

lemma restore_skip_failed_copy:
  assumes "os_path_exists e (trace w) loc"
    and "subprocess_run e (trace w @ [PathExists loc]) [''cp'', loc, filename] = Inr c"
    and "returncode c \<noteq> 0"
  shows "restore_loop e w filename (loc # rest)
           = restore_loop e (w\<lparr>trace := trace w @ [PathExists loc, Run [''cp'', loc, filename]]\<rparr>)
               filename rest"
  using assms by (simp add: path_exists_def run_check_def run_def)

text \<open>
  Claim C6 at the input where it fails. The third candidate location is
  \<^verbatim>\<open>.git/objects/\<close> whatever the filename is: unlike the other four it is not
  built from the filename. With \<^verbatim>\<open>notes.txt\<close> present only under that directory,
  the scan finds the directory, the copy of a directory fails, the two remaining
  candidates do not exist, and \<^verbatim>\<open>restore_file_from_backup\<close> returns false, where
  the claim says true.
\<close>

theorem restore_third_location_fails:
  "backup_locations ''notes.txt'' ! 2 = ''.git/objects/''
   \<and> restore_file_from_backup git_objects_only start ''notes.txt''
     = (False,
        \<lparr>trace = [PathExists ''backups/notes.txt'',
                  PathExists ''backup/notes.txt'',
                  PathExists ''.git/objects/'',
                  Run [''cp'', ''.git/objects/'', ''notes.txt''],
                  PathExists ''__pycache__/notes.txt'',
                  PathExists ''temp/notes.txt''],
         cwd = memU\<rparr>)"
  by (simp add: restore_file_from_backup_def backup_locations_def path_exists_def
        run_check_def run_def git_objects_only_def start_def)



section \<open>Properties of commit_file_to_github\<close>

lemma then_do_Inr:
  "then_do r k = (Inr b, w') \<Longrightarrow> \<exists>v w1. r = (Inr v, w1) \<and> k w1 = (Inr b, w')"
  by (cases r) (auto simp: then_do_def split: sum.splits)

lemma os_path_join_memU: "os_path_join a memU = memU"
  by (simp add: os_path_join_def memU_def)

lemma chdir_raise_Inr: "chdir_raise e w p = (Inr u, w') \<Longrightarrow> cwd w' = os_path_join (cwd w) p"
  by (auto simp: chdir_raise_def chdir_def split: option.splits)

lemma chdir_None: "chdir e w p = (None, w') \<Longrightarrow> cwd w' = os_path_join (cwd w) p"
  by (auto simp: chdir_def split: option.splits)

lemma commit_try_Inr:
  assumes "commit_try e w filename target_repo = (Inr b, w')"
  shows "b \<and> cwd w' = memU"
  using assms unfolding commit_try_def
  apply -
  apply (drule then_do_Inr, clarify)+
  apply (auto dest!: chdir_raise_Inr simp: os_path_join_memU)
  done

lemma commit_returns_in_memU:
  assumes "commit_file_to_github e w filename target_repo = (Inr b, w')"
  shows "cwd w' = memU"
proof (cases "commit_try e w filename target_repo")
  case (Pair res w1)
  show ?thesis
  proof (cases res)
    case (Inr b1)
    with Pair assms have "commit_try e w filename target_repo = (Inr b, w')"
      by (simp add: commit_file_to_github_def)
    then show ?thesis using commit_try_Inr by blast
  next
    case (Inl x)
    with Pair assms have "chdir e w1 memU = (None, w')"
      by (cases "chdir e w1 memU"; cases "fst (chdir e w1 memU)")
         (auto simp: commit_file_to_github_def split: option.splits)
    then show ?thesis using chdir_None [of e w1 memU w'] by (simp add: os_path_join_memU)
  qed
qed

lemma commit_handler:
  assumes "commit_try e w filename target_repo = (Inl x, w1)"
  shows "fst (commit_file_to_github e w filename target_repo) =
           (case os_chdir e (trace w1) memU of Some y \<Rightarrow> Inl y | None \<Rightarrow> Inr False)"
  using assms by (simp add: commit_file_to_github_def chdir_def split: option.splits)

lemma commit_true_iff:
  "fst (commit_file_to_github e w filename target_repo) = Inr True
     \<longleftrightarrow> fst (commit_try e w filename target_repo) = Inr True"
proof (cases "commit_try e w filename target_repo")
  case (Pair res w1)
  show ?thesis
  proof (cases res)
    case (Inr b1)
    with Pair show ?thesis by (simp add: commit_file_to_github_def)
  next
    case (Inl x)
    with Pair show ?thesis using commit_handler [of e w filename target_repo x w1]
      by (simp split: option.splits)
  qed
qed

lemma push_failure_run:
  "commit_file_to_github (publisher_demo [''git'', ''push'']) elsewhere ''notes.txt'' ''core''
     = (Inr False,
        \<lparr>trace = [PathExists ''temp_repos/core'',
                  Run [''cp'', ''notes.txt'', ''temp_repos/core/''],
                  Chdir ''temp_repos/core'',
                  Run [''git'', ''add'', ''notes.txt''],
                  Run [''git'', ''commit'', ''-m'', ''Add notes.txt - orchestration system''],
                  Run [''git'', ''push''],
                  Chdir ''/Users/divinejohns/memU''],
         cwd = ''/Users/divinejohns/memU''\<rparr>)"
  by (simp add: commit_file_to_github_def commit_try_def then_do_def ensure_clone_def
        run_check_def run_def path_exists_def chdir_raise_def chdir_def os_path_join_def
        memU_def github_org_def publisher_demo_def elsewhere_def)

lemma copy_failure_run:
  "commit_file_to_github (publisher_demo [''cp'', ''notes.txt'', ''temp_repos/core/''])
       elsewhere ''notes.txt'' ''core''
     = (Inr False,
        \<lparr>trace = [PathExists ''temp_repos/core'',
                  Run [''cp'', ''notes.txt'', ''temp_repos/core/''],
                  Chdir ''/Users/divinejohns/memU''],
         cwd = ''/Users/divinejohns/memU''\<rparr>)"
  by (simp add: commit_file_to_github_def commit_try_def then_do_def ensure_clone_def
        run_check_def run_def path_exists_def chdir_raise_def chdir_def os_path_join_def
        memU_def github_org_def publisher_demo_def elsewhere_def)

lemma success_run:
  "commit_file_to_github (publisher_demo []) start ''notes.txt'' ''core''
     = (Inr True,
        \<lparr>trace = [PathExists ''temp_repos/core'',
                  Run [''cp'', ''notes.txt'', ''temp_repos/core/''],
                  Chdir ''temp_repos/core'',
                  Run [''git'', ''add'', ''notes.txt''],
                  Run [''git'', ''commit'', ''-m'', ''Add notes.txt - orchestration system''],
                  Run [''git'', ''push''],
                  Chdir ''/Users/divinejohns/memU''],
         cwd = ''/Users/divinejohns/memU''\<rparr>)"
  by (simp add: commit_file_to_github_def commit_try_def then_do_def ensure_clone_def
        run_check_def run_def path_exists_def chdir_raise_def chdir_def os_path_join_def
        memU_def github_org_def publisher_demo_def start_def)

lemma push_failure_from_memU:
  "commit_file_to_github (publisher_demo [''git'', ''push'']) start ''notes.txt'' ''core''
     = (Inr False,
        \<lparr>trace = [PathExists ''temp_repos/core'',
                  Run [''cp'', ''notes.txt'', ''temp_repos/core/''],
                  Chdir ''temp_repos/core'',
                  Run [''git'', ''add'', ''notes.txt''],
                  Run [''git'', ''commit'', ''-m'', ''Add notes.txt - orchestration system''],
                  Run [''git'', ''push''],
                  Chdir ''/Users/divinejohns/memU''],
         cwd = ''/Users/divinejohns/memU''\<rparr>)"
  by (simp add: commit_file_to_github_def commit_try_def then_do_def ensure_clone_def
        run_check_def run_def path_exists_def chdir_raise_def chdir_def os_path_join_def
        memU_def github_org_def publisher_demo_def start_def)

lemma push_failure_try:
  "commit_try (publisher_demo [''git'', ''push'']) start ''notes.txt'' ''core''
     = (Inl (PyExn CalledProcessError ''Command returned non-zero exit status''),
        \<lparr>trace = [PathExists ''temp_repos/core'',
                  Run [''cp'', ''notes.txt'', ''temp_repos/core/''],
                  Chdir ''temp_repos/core'',
                  Run [''git'', ''add'', ''notes.txt''],
                  Run [''git'', ''commit'', ''-m'', ''Add notes.txt - orchestration system''],
                  Run [''git'', ''push'']],
         cwd = ''/Users/divinejohns/memU/temp_repos/core''\<rparr>)"
  by (simp add: commit_try_def then_do_def ensure_clone_def
        run_check_def run_def path_exists_def chdir_raise_def chdir_def os_path_join_def
        memU_def github_org_def publisher_demo_def start_def)


lemma run_check_Inr:
  "run_check e w argv = (Inr v, w') \<Longrightarrow>
     step_ok e (trace w) argv \<and> w' = w\<lparr>trace := trace w @ [Run argv]\<rparr>"
  by (auto simp: run_check_def run_def step_ok_def split: sum.splits if_splits)

lemma run_check_ok:
  "step_ok e (trace w) argv \<Longrightarrow>
     \<exists>c. run_check e w argv = (Inr c, w\<lparr>trace := trace w @ [Run argv]\<rparr>)"
  by (auto simp: run_check_def run_def step_ok_def split: sum.splits if_splits)

lemma then_do_run_check_ok:
  "step_ok e (trace w) argv \<Longrightarrow>
     then_do (run_check e w argv) k = k (w\<lparr>trace := trace w @ [Run argv]\<rparr>)"
  using run_check_ok [of e w argv] by (auto simp: then_do_def)

lemma chdir_raise_Inr_world:
  "chdir_raise e w p = (Inr u, w') \<Longrightarrow>
     os_chdir e (trace w) p = None
     \<and> w' = w\<lparr>trace := trace w @ [Chdir p], cwd := os_path_join (cwd w) p\<rparr>"
  by (auto simp: chdir_raise_def chdir_def split: option.splits)

lemma then_do_chdir_ok:
  "os_chdir e (trace w) p = None \<Longrightarrow>
     then_do (chdir_raise e w p) k
       = k (w\<lparr>trace := trace w @ [Chdir p], cwd := os_path_join (cwd w) p\<rparr>)"
  by (simp add: chdir_raise_def chdir_def then_do_def)

lemma ensure_clone_Inr:
  assumes "ensure_clone e w r = (Inr u, w')"
  shows "clone_ok e w r \<and> w' = w\<lparr>trace := trace_at_copy e w r\<rparr>"
proof (cases "os_path_exists e (trace w) (''temp_repos/'' @ r)")
  case True
  with assms show ?thesis
    by (simp add: ensure_clone_def path_exists_def clone_ok_def trace_at_copy_def)
next
  case False
  with assms have
    "then_do (run_check e (w\<lparr>trace := trace w @ [PathExists (''temp_repos/'' @ r)]\<rparr>)
                [''mkdir'', ''-p'', ''temp_repos''])
       (\<lambda>w2. then_do (run_check e w2 [''gh'', ''repo'', ''clone'', github_org @ ''/'' @ r,
                                       ''temp_repos/'' @ r])
                (\<lambda>w3. (Inr (), w3))) = (Inr u, w')"
    by (simp add: ensure_clone_def path_exists_def)
  then show ?thesis
    using False
    apply -
    apply (drule then_do_Inr, clarify)+
    apply (auto dest!: run_check_Inr simp: clone_ok_def trace_at_copy_def)
    done
qed

lemma then_do_ensure_clone_ok:
  assumes "clone_ok e w r"
  shows "then_do (ensure_clone e w r) k = k (w\<lparr>trace := trace_at_copy e w r\<rparr>)"
proof (cases "os_path_exists e (trace w) (''temp_repos/'' @ r)")
  case True
  then show ?thesis
    by (simp add: ensure_clone_def path_exists_def trace_at_copy_def then_do_def)
next
  case False
  with assms have a: "step_ok e (trace w @ [PathExists (''temp_repos/'' @ r)])
                        [''mkdir'', ''-p'', ''temp_repos'']"
    and b: "step_ok e (trace w @ [PathExists (''temp_repos/'' @ r),
                                  Run [''mkdir'', ''-p'', ''temp_repos'']])
              [''gh'', ''repo'', ''clone'', github_org @ ''/'' @ r, ''temp_repos/'' @ r]"
    by (simp_all add: clone_ok_def)
  from False a b show ?thesis
    by (simp add: ensure_clone_def path_exists_def trace_at_copy_def then_do_run_check_ok)
       (simp add: then_do_def)
qed

lemma commit_try_ok:
  assumes "publish_ok e w filename target_repo"
  shows "\<exists>w'. commit_try e w filename target_repo = (Inr True, w')"
  using assms
  by (simp add: commit_try_def publish_ok_def trace_at_push_def then_do_ensure_clone_ok
        then_do_run_check_ok then_do_chdir_ok)

lemma commit_try_needs_ok:
  assumes "commit_try e w filename target_repo = (Inr b, w')"
  shows "publish_ok e w filename target_repo"
  using assms unfolding commit_try_def
  apply -
  apply (drule then_do_Inr, clarify)+
  apply (auto dest!: run_check_Inr chdir_raise_Inr_world ensure_clone_Inr
              simp: publish_ok_def trace_at_push_def)
  done

lemma commit_try_true_iff:
  "fst (commit_try e w filename target_repo) = Inr True \<longleftrightarrow> publish_ok e w filename target_repo"
proof
  assume "fst (commit_try e w filename target_repo) = Inr True"
  then have "commit_try e w filename target_repo
               = (Inr True, snd (commit_try e w filename target_repo))"
    by (simp add: prod_eq_iff)
  then show "publish_ok e w filename target_repo" by (rule commit_try_needs_ok)
next
  assume "publish_ok e w filename target_repo"
  then show "fst (commit_try e w filename target_repo) = Inr True"
    using commit_try_ok by fastforce
qed

lemma commit_try_raises:
  assumes "\<not> publish_ok e w filename target_repo"
  shows "\<exists>x. fst (commit_try e w filename target_repo) = Inl x"
proof (cases "fst (commit_try e w filename target_repo)")
  case (Inl x)
  then show ?thesis by blast
next
  case (Inr b)
  then have "commit_try e w filename target_repo
               = (Inr b, snd (commit_try e w filename target_repo))"
    by (simp add: prod_eq_iff)
  with assms commit_try_needs_ok show ?thesis by blast
qed

lemma commit_true_iff_ok:
  "fst (commit_file_to_github e w filename target_repo) = Inr True
     \<longleftrightarrow> publish_ok e w filename target_repo"
  using commit_true_iff commit_try_true_iff by blast

lemma commit_false_when_step_fails:
  assumes "\<not> publish_ok e w filename target_repo"
    and "os_chdir e (trace (snd (commit_try e w filename target_repo))) memU = None"
  shows "fst (commit_file_to_github e w filename target_repo) = Inr False"
proof -
  from commit_try_raises [OF assms(1)] obtain x where
    "commit_try e w filename target_repo = (Inl x, snd (commit_try e w filename target_repo))"
    by (auto simp: prod_eq_iff)
  from commit_handler [OF this] assms(2) show ?thesis by simp
qed

lemma demo_push_rejected:
  "\<not> step_ok (publisher_demo [''git'', ''push''])
       (trace_at_push (publisher_demo [''git'', ''push'']) start ''notes.txt'' ''core'')
       [''git'', ''push'']"
  by (simp add: step_ok_def publisher_demo_def)

lemma demo_publish_ok: "publish_ok (publisher_demo []) start ''notes.txt'' ''core''"
  by (simp add: publish_ok_def clone_ok_def step_ok_def publisher_demo_def)


text \<open>
  Claim C3, as stated, fails: started in \<^verbatim>\<open>/tmp/work\<close> with a push that is
  rejected, the method returns false and the working directory is
  \<^verbatim>\<open>/Users/divinejohns/memU\<close>, not the directory it was called in.
\<close>

theorem commit_cwd_counterexample:
  "commit_file_to_github (publisher_demo [''git'', ''push'']) elsewhere ''notes.txt'' ''core''
     = (Inr False,
        \<lparr>trace = [PathExists ''temp_repos/core'',
                  Run [''cp'', ''notes.txt'', ''temp_repos/core/''],
                  Chdir ''temp_repos/core'',
                  Run [''git'', ''add'', ''notes.txt''],
                  Run [''git'', ''commit'', ''-m'', ''Add notes.txt - orchestration system''],
                  Run [''git'', ''push''],
                  Chdir ''/Users/divinejohns/memU''],
         cwd = ''/Users/divinejohns/memU''\<rparr>)
   \<and> cwd elsewhere = ''/tmp/work''"
  by (simp add: commit_file_to_github_def commit_try_def then_do_def ensure_clone_def
        run_check_def run_def path_exists_def chdir_raise_def chdir_def os_path_join_def
        memU_def github_org_def publisher_demo_def elsewhere_def)


text \<open>
  Claim C3, amended. Whenever \<^verbatim>\<open>commit_file_to_github\<close> returns, the working
  directory is \<^verbatim>\<open>/Users/divinejohns/memU\<close>; so it equals its value from before
  the call exactly when the call was made in that directory. The method returns true
  exactly when every step of the publication succeeds. When a step fails and the
  handler's change to that directory succeeds, the method returns false; in particular
  a push that fails never gives true, and gives false wherever that directory can be
  entered.
\<close>

theorem commit_restores_only_from_memU:
  "(\<forall>b w'. commit_file_to_github e w filename target_repo = (Inr b, w') \<longrightarrow>
       cwd w' = memU \<and> (cwd w' = cwd w \<longleftrightarrow> cwd w = memU))
   \<and> (fst (commit_file_to_github e w filename target_repo) = Inr True
        \<longleftrightarrow> publish_ok e w filename target_repo)
   \<and> (\<not> publish_ok e w filename target_repo
        \<and> os_chdir e (trace (snd (commit_try e w filename target_repo))) memU = None \<longrightarrow>
       fst (commit_file_to_github e w filename target_repo) = Inr False)
   \<and> (\<not> step_ok e (trace_at_push e w filename target_repo) [''git'', ''push''] \<longrightarrow>
       fst (commit_file_to_github e w filename target_repo) \<noteq> Inr True
       \<and> ((\<forall>tr. os_chdir e tr memU = None) \<longrightarrow>
            fst (commit_file_to_github e w filename target_repo) = Inr False))"
proof (intro conjI allI impI)
  fix b w'
  assume a: "commit_file_to_github e w filename target_repo = (Inr b, w')"
  then show "cwd w' = memU" by (rule commit_returns_in_memU)
  then show "cwd w' = cwd w \<longleftrightarrow> cwd w = memU" by auto
next
  show "fst (commit_file_to_github e w filename target_repo) = Inr True
          \<longleftrightarrow> publish_ok e w filename target_repo"
    by (rule commit_true_iff_ok)
next
  assume "\<not> publish_ok e w filename target_repo
            \<and> os_chdir e (trace (snd (commit_try e w filename target_repo))) memU = None"
  then show "fst (commit_file_to_github e w filename target_repo) = Inr False"
    using commit_false_when_step_fails by blast
next
  assume p: "\<not> step_ok e (trace_at_push e w filename target_repo) [''git'', ''push'']"
  then have n: "\<not> publish_ok e w filename target_repo" by (simp add: publish_ok_def)
  then show "fst (commit_file_to_github e w filename target_repo) \<noteq> Inr True"
    by (simp add: commit_true_iff_ok)
  assume "\<forall>tr. os_chdir e tr memU = None"
  then have "os_chdir e (trace (snd (commit_try e w filename target_repo))) memU = None"
    by simp
  with n show "fst (commit_file_to_github e w filename target_repo) = Inr False"
    by (rule commit_false_when_step_fails)
qed


theorem commit_restores_only_from_memU_witness:
  "cwd start = ''/Users/divinejohns/memU''
   \<and> commit_file_to_github (publisher_demo [''git'', ''push'']) start ''notes.txt'' ''core''
     = (Inr False,
        \<lparr>trace = [PathExists ''temp_repos/core'',
                  Run [''cp'', ''notes.txt'', ''temp_repos/core/''],
                  Chdir ''temp_repos/core'',
                  Run [''git'', ''add'', ''notes.txt''],
                  Run [''git'', ''commit'', ''-m'', ''Add notes.txt - orchestration system''],
                  Run [''git'', ''push''],
                  Chdir ''/Users/divinejohns/memU''],
         cwd = ''/Users/divinejohns/memU''\<rparr>)
   \<and> commit_file_to_github (publisher_demo []) start ''notes.txt'' ''core''
     = (Inr True,
        \<lparr>trace = [PathExists ''temp_repos/core'',
                  Run [''cp'', ''notes.txt'', ''temp_repos/core/''],
                  Chdir ''temp_repos/core'',
                  Run [''git'', ''add'', ''notes.txt''],
                  Run [''git'', ''commit'', ''-m'', ''Add notes.txt - orchestration system''],
                  Run [''git'', ''push''],
                  Chdir ''/Users/divinejohns/memU''],
         cwd = ''/Users/divinejohns/memU''\<rparr>)"
proof -
  note t = commit_restores_only_from_memU
  have h: "\<forall>tr. os_chdir (publisher_demo [''git'', ''push'']) tr memU = None"
    by (simp add: publisher_demo_def)
  from t [of "publisher_demo [''git'', ''push'']" start "''notes.txt''" "''core''"]
    demo_push_rejected h
  have a: "fst (commit_file_to_github (publisher_demo [''git'', ''push'']) start
                  ''notes.txt'' ''core'') = Inr False"
    by blast
  from t [of "publisher_demo []" start "''notes.txt''" "''core''"] demo_publish_ok
  have b: "fst (commit_file_to_github (publisher_demo []) start ''notes.txt'' ''core'')
             = Inr True"
    by blast
  from a b push_failure_from_memU success_run show ?thesis
    by (simp add: start_def memU_def)
qed

text \<open>
  Claim C9. After a call of \<^verbatim>\<open>commit_file_to_github\<close> that returns, true or
  false, the working directory is \<^verbatim>\<open>/Users/divinejohns/memU\<close>, whatever it was
  before and whichever step failed, also when the failure came before any change of
  directory.
\<close>

theorem commit_leaves_cwd_at_memU:
  assumes "commit_file_to_github e w filename target_repo = (Inr b, w')"
  shows "cwd w' = ''/Users/divinejohns/memU''"
  using commit_returns_in_memU [OF assms] by (simp add: memU_def)


theorem commit_leaves_cwd_at_memU_witness:
  "fst (commit_file_to_github (publisher_demo [''cp'', ''notes.txt'', ''temp_repos/core/''])
          elsewhere ''notes.txt'' ''core'') = Inr False
   \<and> cwd elsewhere = ''/tmp/work''
   \<and> cwd (snd (commit_file_to_github (publisher_demo [''cp'', ''notes.txt'', ''temp_repos/core/''])
                  elsewhere ''notes.txt'' ''core'')) = ''/Users/divinejohns/memU''"
  using commit_leaves_cwd_at_memU [OF copy_failure_run] copy_failure_run
  by (simp add: elsewhere_def)

section \<open>Properties of the test runner\<close>

lemma started_append: "started (xs @ ys) = started xs @ started ys"
  by (induction xs rule: started.induct) auto

lemma run_test_cases:
  "run_test s n p =
     (case p (outside s) of
        (Inr True, w') \<Rightarrow>
          (Inr True, \<lparr>self = (self s)\<lparr>total_tests := total_tests (self s) + 1,
                                      passed_tests := passed_tests (self s) + 1\<rparr>,
                      printed = printed s @ [Running n, Passed n], outside = w'\<rparr>)
      | (Inr False, w') \<Rightarrow>
          (Inr False, \<lparr>self = (self s)\<lparr>total_tests := total_tests (self s) + 1,
                                       failed_tests := failed_tests (self s) + 1\<rparr>,
                       printed = printed s @ [Running n, Failed n], outside = w'\<rparr>)
      | (Inl (Exc x), w') \<Rightarrow>
          (Inr False, \<lparr>self = (self s)\<lparr>total_tests := total_tests (self s) + 1,
                                       failed_tests := failed_tests (self s) + 1\<rparr>,
                       printed = printed s @ [Running n, ErrorIn n (str_exn x)], outside = w'\<rparr>)
      | (Inl (Base x), w') \<Rightarrow>
          (Inl x, \<lparr>self = (self s)\<lparr>total_tests := total_tests (self s) + 1\<rparr>,
                   printed = printed s @ [Running n], outside = w'\<rparr>))"
  by (simp add: run_test_def Let_def split: prod.splits sum.splits bool.splits raised.splits)

lemma run_test_effect:
  assumes "run_test s n p = (out, s')"
  shows "total_tests (self s') = total_tests (self s) + 1"
    and "passed_tests (self s') = passed_tests (self s) + (if out = Inr True then 1 else 0)"
    and "failed_tests (self s') = failed_tests (self s) + (if out = Inr False then 1 else 0)"
    and "outside s' = snd (p (outside s))"
    and "started (printed s') = started (printed s) @ [n]"
    and "set (printed s) \<subseteq> set (printed s')"
  using assms
  by (auto simp: run_test_cases started_append
           split: prod.splits sum.splits bool.splits raised.splits)

lemma run_test_returns:
  "run_test s n p = (Inl x, s') \<longleftrightarrow>
     fst (p (outside s)) = Inl (Base x)
     \<and> s' = \<lparr>self = (self s)\<lparr>total_tests := total_tests (self s) + 1\<rparr>,
              printed = printed s @ [Running n], outside = snd (p (outside s))\<rparr>"
  by (auto simp: run_test_cases split: prod.splits sum.splits bool.splits raised.splits)

lemma run_tests_append:
  "run_tests (xs @ ys) acc =
     (case run_tests xs acc of
        (Inl x, s') \<Rightarrow> (Inl x, s')
      | (Inr res, s') \<Rightarrow> run_tests ys (res, s'))"
proof (induction xs arbitrary: acc)
  case Nil
  show ?case by (cases acc) simp
next
  case (Cons t xs)
  show ?case by (cases acc; cases t) (simp add: Cons.IH split: prod.splits sum.splits)
qed

lemma run_tests_effect_all:
  "run_tests ts (res, s) = (Inr res', s') \<Longrightarrow>
     total_tests (self s') = total_tests (self s) + int (length ts)
   \<and> passed_tests (self s') + failed_tests (self s')
         = passed_tests (self s) + failed_tests (self s) + int (length ts)
   \<and> passed_tests (self s) \<le> passed_tests (self s')
   \<and> failed_tests (self s) \<le> failed_tests (self s')
   \<and> outside s' = exec_probes (map snd ts) (outside s)
   \<and> started (printed s') = started (printed s) @ map fst ts
   \<and> set (printed s) \<subseteq> set (printed s')"
proof (induction ts arbitrary: res s)
  case Nil
  then show ?case by (simp add: exec_probes_def)
next
  case (Cons t ts)
  obtain n p where t: "t = (n, p)" by (cases t)
  obtain out s1 where r: "run_test s n p = (out, s1)" by (cases "run_test s n p")
  from Cons.prems t r obtain b where out: "out = Inr b" by (cases out) auto
  note e = run_test_effect [OF r]
  have "run_tests (t # ts) (res, s) = run_tests ts (dict_set res n b, s1)"
    using t r out by simp
  with Cons.prems have "run_tests ts (dict_set res n b, s1) = (Inr res', s')" by simp
  from Cons.IH [OF this] e t out show ?case
    by (cases b) (auto simp: exec_probes_def)
qed

lemma run_tests_effect:
  assumes "run_tests ts (res, s) = (Inr res', s')"
  shows "total_tests (self s') = total_tests (self s) + int (length ts)"
    and "passed_tests (self s') + failed_tests (self s')
           = passed_tests (self s) + failed_tests (self s) + int (length ts)"
    and "passed_tests (self s) \<le> passed_tests (self s')"
    and "failed_tests (self s) \<le> failed_tests (self s')"
    and "outside s' = exec_probes (map snd ts) (outside s)"
    and "started (printed s') = started (printed s) @ map fst ts"
    and "set (printed s) \<subseteq> set (printed s')"
  using run_tests_effect_all [OF assms] by blast+

text \<open>The counts of any run, also one that an uncaught exception ended.\<close>

lemma run_tests_counts_all:
  "run_tests ts (res, s) = (out, s') \<Longrightarrow>
     passed_tests (self s) \<le> passed_tests (self s')
   \<and> failed_tests (self s) \<le> failed_tests (self s')
   \<and> total_tests (self s) \<le> total_tests (self s')
   \<and> passed_tests (self s') + failed_tests (self s') + total_tests (self s)
         \<le> total_tests (self s') + passed_tests (self s) + failed_tests (self s)"
proof (induction ts arbitrary: res s)
  case Nil
  then show ?case by simp
next
  case (Cons t ts)
  obtain n p where t: "t = (n, p)" by (cases t)
  obtain o1 s1 where r: "run_test s n p = (o1, s1)" by (cases "run_test s n p")
  note e = run_test_effect(1-3) [OF r]
  show ?case
  proof (cases o1)
    case (Inl x)
    with Cons.prems t r have "s' = s1" by simp
    with e Inl show ?thesis by simp
  next
    case (Inr b)
    with Cons.prems t r have "run_tests ts (dict_set res n b, s1) = (out, s')" by simp
    from Cons.IH [OF this] e Inr show ?thesis by (cases b) auto
  qed
qed

lemma run_tests_completes:
  "\<forall>q\<in>snd ` set ts. \<forall>w b. fst (q w) \<noteq> Inl (Base b) \<Longrightarrow>
     \<exists>res' s'. run_tests ts (res, s) = (Inr res', s')"
proof (induction ts arbitrary: res s)
  case Nil
  show ?case by simp
next
  case (Cons t ts)
  obtain n p where t: "t = (n, p)" by (cases t)
  obtain o1 s1 where r: "run_test s n p = (o1, s1)" by (cases "run_test s n p")
  from Cons.prems t have "\<forall>b. fst (p (outside s)) \<noteq> Inl (Base b)" by simp
  with r obtain b where o1: "o1 = Inr b"
    by (cases o1) (auto simp: run_test_returns)
  from Cons.prems have "\<forall>q\<in>snd ` set ts. \<forall>w b. fst (q w) \<noteq> Inl (Base b)" by simp
  from Cons.IH [OF this, of "dict_set res n b" s1] t r o1 show ?case by simp
qed

lemma run_tests_untouched:
  "n \<notin> fst ` set ts \<Longrightarrow> run_tests ts (res, s) = (Inr res', s') \<Longrightarrow>
     map_of res' n = map_of res n"
proof (induction ts arbitrary: res s)
  case Nil
  then show ?case by simp
next
  case (Cons t ts)
  obtain m p where t: "t = (m, p)" by (cases t)
  obtain o1 s1 where r: "run_test s m p = (o1, s1)" by (cases "run_test s m p")
  from Cons.prems(2) t r obtain b where o1: "o1 = Inr b" by (cases o1) auto
  from Cons.prems t have ne: "n \<noteq> m" and notin: "n \<notin> fst ` set ts" by auto
  from Cons.prems(2) t r o1 have "run_tests ts (dict_set res m b, s1) = (Inr res', s')" by simp
  from Cons.IH [OF notin this] ne show ?case by (simp add: map_of_dict_set)
qed

lemma success_rate_returns: "\<exists>r. success_rate rnd passed total_n = Inr r"
  by (simp add: success_rate_def truediv_def)

lemma run_suite_report:
  assumes "run_suite te ts s = (Inr rep, s')"
  shows "run_tests ts ([], s) = (Inr (test_results rep), s')"
    and "report_total_tests rep = total_tests (self s')"
    and "report_passed_tests rep = passed_tests (self s')"
    and "report_failed_tests rep = failed_tests (self s')"
    and "success_rate (float_round te) (passed_tests (self s')) (total_tests (self s'))
           = Inr (report_success_rate rep)"
    and "system_status rep = (if failed_tests (self s') = 0 then ''healthy'' else ''issues_detected'')"
  using assms
  by (auto simp: run_suite_def Let_def split: prod.splits sum.splits option.splits)

lemma run_suite_returns:
  assumes "run_tests ts ([], s) = (Inr res, s')" "dump_report te = None"
  shows "\<exists>rep. run_suite te ts s = (Inr rep, s')
             \<and> test_results rep = res
             \<and> report_total_tests rep = total_tests (self s')
             \<and> report_passed_tests rep = passed_tests (self s')
             \<and> report_failed_tests rep = failed_tests (self s')
             \<and> system_status rep
                 = (if failed_tests (self s') = 0 then ''healthy'' else ''issues_detected'')"
proof -
  obtain r where "success_rate (float_round te) (passed_tests (self s')) (total_tests (self s'))
                    = Inr r"
    using success_rate_returns by blast
  with assms show ?thesis by (simp add: run_suite_def)
qed

lemma run_comprehensive_tests_total:
  assumes "run_comprehensive_tests te ps s = (Inr rep, s')" "self s = init"
  shows "report_total_tests rep = 11"
proof -
  from assms(1) have r: "run_suite te (tests ps) s = (Inr rep, s')"
    by (simp add: run_comprehensive_tests_def)
  from run_tests_effect(1) [OF run_suite_report(1) [OF r]] run_suite_report(2) [OF r] assms(2)
  show ?thesis by (simp add: tests_def init_def)
qed


text \<open>
  Claim C4, as stated, fails: an exception that is not a subclass of
  \<^verbatim>\<open>Exception\<close> is not caught. With a second probe that calls
  \<^verbatim>\<open>sys.exit(1)\<close>, \<^verbatim>\<open>SystemExit\<close> leaves \<^verbatim>\<open>run_test\<close> and the loop:
  the probe is counted in the total but not as failed, the third probe is never
  started, and no report is made.
\<close>

theorem exiting_probe_counterexample:
  "run_tests exit_suite ([], fresh [])
     = (Inl (SystemExit ''1''),
        \<lparr>self = \<lparr>total_tests = 2, passed_tests = 1, failed_tests = 0\<rparr>,
         printed = [Running ''File Structure'', Passed ''File Structure'',
                    Running ''Orchestrator Import''],
         outside = [''File Structure'', ''Orchestrator Import'']\<rparr>)
   \<and> run_suite flat_env exit_suite (fresh [])
     = (Inl (Base (SystemExit ''1'')),
        \<lparr>self = \<lparr>total_tests = 2, passed_tests = 1, failed_tests = 0\<rparr>,
         printed = [Running ''File Structure'', Passed ''File Structure'',
                    Running ''Orchestrator Import''],
         outside = [''File Structure'', ''Orchestrator Import'']\<rparr>)"
  by (simp add: run_suite_def exit_suite_def run_test_def passing_def exiting_def fresh_def
        init_def)


text \<open>
  Claim C4, amended. In a suite of N probes none of which raises anything but
  subclasses of \<^verbatim>\<open>Exception\<close>, in which the probe at some position raises: its
  exception goes no further than \<^verbatim>\<open>run_test\<close>, which returns false, adds one to
  the failed count and prints a line with the probe's name and the exception's message;
  the loop completes; the entry of the probe in the results is false (unless a later
  probe of the same name overwrites it); every probe of the suite is started, in order,
  and the probes after the raising one act on the outside as they would otherwise; the
  total count grows by N; and whenever the report can be written it is returned, with
  \<^verbatim>\<open>total_tests\<close> N for a fresh tester, at least one failed test and the status
  \<^verbatim>\<open>issues_detected\<close>.
\<close>

theorem raising_probe_isolated:
  assumes "ts = pre @ (name, p) # post"
    and "\<forall>q\<in>snd ` set ts. \<forall>w b. fst (q w) \<noteq> Inl (Base b)"
    and "p (outside (snd (run_tests pre ([], s0)))) = (Inl (Exc x), w2)"
  shows "\<exists>res1 s1 res s.
           run_tests pre ([], s0) = (Inr res1, s1)
         \<and> run_test s1 name p =
             (Inr False, \<lparr>self = (self s1)\<lparr>total_tests := total_tests (self s1) + 1,
                                           failed_tests := failed_tests (self s1) + 1\<rparr>,
                          printed = printed s1 @ [Running name, ErrorIn name (str_exn x)],
                          outside = w2\<rparr>)
         \<and> run_tests ts ([], s0) = (Inr res, s)
         \<and> total_tests (self s) = total_tests (self s0) + int (length ts)
         \<and> failed_tests (self s1) + 1 \<le> failed_tests (self s)
         \<and> ErrorIn name (str_exn x) \<in> set (printed s)
         \<and> (name \<notin> fst ` set post \<longrightarrow> map_of res name = Some False)
         \<and> started (printed s) = started (printed s0) @ map fst ts
         \<and> outside s = exec_probes (map snd post) w2
         \<and> (\<forall>te. dump_report te = None \<longrightarrow>
               (\<exists>rep. run_suite te ts s0 = (Inr rep, s)
                  \<and> test_results rep = res
                  \<and> report_total_tests rep = total_tests (self s0) + int (length ts)
                  \<and> report_failed_tests rep = failed_tests (self s)
                  \<and> (self s0 = init \<longrightarrow>
                        report_total_tests rep = int (length ts)
                        \<and> 1 \<le> report_failed_tests rep
                        \<and> system_status rep = ''issues_detected'')))"
proof -
  from assms(1,2) have "\<forall>q\<in>snd ` set pre. \<forall>w b. fst (q w) \<noteq> Inl (Base b)" by auto
  then obtain res1 s1 where pre: "run_tests pre ([], s0) = (Inr res1, s1)"
    using run_tests_completes by blast
  obtain res s where all: "run_tests ts ([], s0) = (Inr res, s)"
    using run_tests_completes [OF assms(2)] by blast
  let ?s2 = "\<lparr>self = (self s1)\<lparr>total_tests := total_tests (self s1) + 1,
                                failed_tests := failed_tests (self s1) + 1\<rparr>,
               printed = printed s1 @ [Running name, ErrorIn name (str_exn x)],
               outside = w2\<rparr>"
  from assms(3) pre have raises: "p (outside s1) = (Inl (Exc x), w2)" by simp
  then have k: "run_test s1 name p = (Inr False, ?s2)"
    by (simp add: run_test_cases)
  have "run_tests ts ([], s0) = run_tests post (dict_set res1 name False, ?s2)"
    unfolding assms(1) run_tests_append pre using k by simp
  with all have rest: "run_tests post (dict_set res1 name False, ?s2) = (Inr res, s)"
    by simp
  note e = run_tests_effect [OF all]
  note after = run_tests_effect [OF rest]
  note before = run_tests_effect [OF pre]
  have total: "total_tests (self s) = total_tests (self s0) + int (length ts)"
    by (rule e(1))
  have failed: "failed_tests (self s1) + 1 \<le> failed_tests (self s)"
    using after(4) by simp
  have line: "ErrorIn name (str_exn x) \<in> set (printed s)"
    using after(7) by auto
  have entry: "name \<notin> fst ` set post \<longrightarrow> map_of res name = Some False"
    using run_tests_untouched [OF _ rest, of name] by (simp add: map_of_dict_set)
  have names: "started (printed s) = started (printed s0) @ map fst ts"
    by (rule e(6))
  have world: "outside s = exec_probes (map snd post) w2"
    using after(5) by simp
  have rep: "\<exists>rep. run_suite te ts s0 = (Inr rep, s)
                  \<and> test_results rep = res
                  \<and> report_total_tests rep = total_tests (self s0) + int (length ts)
                  \<and> report_failed_tests rep = failed_tests (self s)
                  \<and> (self s0 = init \<longrightarrow>
                        report_total_tests rep = int (length ts)
                        \<and> 1 \<le> report_failed_tests rep
                        \<and> system_status rep = ''issues_detected'')"
    if d: "dump_report te = None" for te
  proof -
    from run_suite_returns [OF all d] obtain rep where
      r: "run_suite te ts s0 = (Inr rep, s)" and tr: "test_results rep = res"
      and rt: "report_total_tests rep = total_tests (self s)"
      and rf: "report_failed_tests rep = failed_tests (self s)"
      and st: "system_status rep
                 = (if failed_tests (self s) = 0 then ''healthy'' else ''issues_detected'')"
      by blast
    have fresh: "report_total_tests rep = int (length ts) \<and> 1 \<le> report_failed_tests rep
                 \<and> system_status rep = ''issues_detected''" if i: "self s0 = init"
    proof -
      have "0 \<le> failed_tests (self s1)" using before(4) i by (simp add: init_def)
      with failed have "1 \<le> failed_tests (self s)" by simp
      with rt rf st total i show ?thesis by (simp add: init_def)
    qed
    from r tr rt rf total fresh show ?thesis by simp
  qed
  have last: "\<forall>te. dump_report te = None \<longrightarrow>
               (\<exists>rep. run_suite te ts s0 = (Inr rep, s)
                  \<and> test_results rep = res
                  \<and> report_total_tests rep = total_tests (self s0) + int (length ts)
                  \<and> report_failed_tests rep = failed_tests (self s)
                  \<and> (self s0 = init \<longrightarrow>
                        report_total_tests rep = int (length ts)
                        \<and> 1 \<le> report_failed_tests rep
                        \<and> system_status rep = ''issues_detected''))"
    using rep by blast
  show ?thesis
    apply (rule exI [of _ res1], rule exI [of _ s1], rule exI [of _ res], rule exI [of _ s])
    apply (intro conjI)
    apply (fact pre k all total failed line entry names world last)+
    done
qed


lemma small_suite_split:
  "small_suite = [(''File Structure'', passing ''File Structure'')]
       @ (''Orchestrator Import'', raising ''Orchestrator Import'')
       # [(''System Health'', passing ''System Health''),
          (''Cursor Rules'', passing ''Cursor Rules'')]"
  by (simp add: small_suite_def)

lemma small_suite_no_exit:
  "\<forall>q\<in>snd ` set small_suite. \<forall>w b. fst (q w) \<noteq> Inl (Base b)"
  by (simp add: small_suite_def passing_def raising_def)

lemma small_suite_before:
  "run_tests [(''File Structure'', passing ''File Structure'')] ([], fresh [])
     = (Inr [(''File Structure'', True)],
        \<lparr>self = \<lparr>total_tests = 1, passed_tests = 1, failed_tests = 0\<rparr>,
         printed = [Running ''File Structure'', Passed ''File Structure''],
         outside = [''File Structure'']\<rparr>)"
  by (simp add: run_test_def passing_def fresh_def init_def)

lemma small_suite_run:
  "run_tests small_suite ([], fresh [])
     = (Inr [(''File Structure'', True), (''Orchestrator Import'', False),
             (''System Health'', True), (''Cursor Rules'', True)],
        \<lparr>self = \<lparr>total_tests = 4, passed_tests = 3, failed_tests = 1\<rparr>,
         printed = [Running ''File Structure'', Passed ''File Structure'',
                    Running ''Orchestrator Import'',
                    ErrorIn ''Orchestrator Import'' ''no module named Orchestrator Import'',
                    Running ''System Health'', Passed ''System Health'',
                    Running ''Cursor Rules'', Passed ''Cursor Rules''],
         outside = [''File Structure'', ''Orchestrator Import'', ''System Health'',
                    ''Cursor Rules'']\<rparr>)"
  by (simp add: small_suite_def run_test_def passing_def raising_def fresh_def init_def)

lemma small_suite_report:
  "run_suite flat_env small_suite (fresh [])
     = (Inr \<lparr>timestamp = ''2026-11-04T07:22:00'',
              report_total_tests = 4,
              report_passed_tests = 3,
              report_failed_tests = 1,
              report_success_rate = 75,
              test_results = [(''File Structure'', True), (''Orchestrator Import'', False),
                              (''System Health'', True), (''Cursor Rules'', True)],
              system_status = ''issues_detected''\<rparr>,
        \<lparr>self = \<lparr>total_tests = 4, passed_tests = 3, failed_tests = 1\<rparr>,
         printed = [Running ''File Structure'', Passed ''File Structure'',
                    Running ''Orchestrator Import'',
                    ErrorIn ''Orchestrator Import'' ''no module named Orchestrator Import'',
                    Running ''System Health'', Passed ''System Health'',
                    Running ''Cursor Rules'', Passed ''Cursor Rules''],
         outside = [''File Structure'', ''Orchestrator Import'', ''System Health'',
                    ''Cursor Rules'']\<rparr>)"
  by (simp add: run_suite_def small_suite_run flat_env_def success_rate_def truediv_def
        float_mul_def round52_def)

theorem raising_probe_isolated_witness:
  "run_suite flat_env small_suite (fresh [])
     = (Inr \<lparr>timestamp = ''2026-11-04T07:22:00'',
              report_total_tests = 4,
              report_passed_tests = 3,
              report_failed_tests = 1,
              report_success_rate = 75,
              test_results = [(''File Structure'', True), (''Orchestrator Import'', False),
                              (''System Health'', True), (''Cursor Rules'', True)],
              system_status = ''issues_detected''\<rparr>,
        \<lparr>self = \<lparr>total_tests = 4, passed_tests = 3, failed_tests = 1\<rparr>,
         printed = [Running ''File Structure'', Passed ''File Structure'',
                    Running ''Orchestrator Import'',
                    ErrorIn ''Orchestrator Import'' ''no module named Orchestrator Import'',
                    Running ''System Health'', Passed ''System Health'',
                    Running ''Cursor Rules'', Passed ''Cursor Rules''],
         outside = [''File Structure'', ''Orchestrator Import'', ''System Health'',
                    ''Cursor Rules'']\<rparr>)
   \<and> raising ''Orchestrator Import'' [''File Structure'']
     = (Inl (Exc (PyExn OtherError ''no module named Orchestrator Import'')),
        [''File Structure'', ''Orchestrator Import''])
   \<and> exec_probes [passing ''System Health'', passing ''Cursor Rules'']
        [''File Structure'', ''Orchestrator Import'']
     = [''File Structure'', ''Orchestrator Import'', ''System Health'', ''Cursor Rules'']"
proof -
  have r: "raising ''Orchestrator Import''
             (outside (snd (run_tests [(''File Structure'', passing ''File Structure'')]
                              ([], fresh []))))
           = (Inl (Exc (PyExn OtherError ''no module named Orchestrator Import'')),
              [''File Structure'', ''Orchestrator Import''])"
    unfolding small_suite_before by (simp add: raising_def)
  have d: "dump_report flat_env = None" by (simp add: flat_env_def)
  from raising_probe_isolated [OF small_suite_split small_suite_no_exit r]
  obtain res s rep where
    "run_tests small_suite ([], fresh []) = (Inr res, s)"
    "outside s = exec_probes (map snd [(''System Health'', passing ''System Health''),
                                         (''Cursor Rules'', passing ''Cursor Rules'')])
                   [''File Structure'', ''Orchestrator Import'']"
    "run_suite flat_env small_suite (fresh []) = (Inr rep, s)"
    using d by blast
  then show ?thesis
    using small_suite_report small_suite_run
    by (simp add: raising_def passing_def exec_probes_def)
qed

section \<open>Properties of the success rate\<close>

lemma success_rate_zero_total: "success_rate rnd passed 0 = Inr 0"
  by (simp add: success_rate_def)

lemma success_rate_range:
  assumes "mono rnd" "rnd 0 = 0" "rnd 1 = 1" "rnd 100 = 100"
    and "0 \<le> passed" "passed \<le> total_n"
  shows "\<exists>r. success_rate rnd passed total_n = Inr r \<and> 0 \<le> r \<and> r \<le> 100"
proof (cases "total_n > 0")
  case False
  then show ?thesis by (simp add: success_rate_def)
next
  case True
  let ?q = "rnd (of_int passed / of_int total_n)"
  have "(0::rat) \<le> of_int passed / of_int total_n" using assms(5) True by simp
  then have "rnd 0 \<le> ?q" by (rule monoD [OF assms(1)])
  then have q0: "0 \<le> ?q" using assms(2) by simp
  have "of_int passed / of_int total_n \<le> (1::rat)" using assms(6) True by simp
  then have "?q \<le> rnd 1" by (rule monoD [OF assms(1)])
  then have q1: "?q \<le> 1" using assms(3) by simp
  from q0 have "0 \<le> ?q * 100" by simp
  then have "rnd 0 \<le> rnd (?q * 100)" by (rule monoD [OF assms(1)])
  then have r0: "0 \<le> rnd (?q * 100)" using assms(2) by simp
  from q1 have "?q * 100 \<le> 100" by simp
  then have "rnd (?q * 100) \<le> rnd 100" by (rule monoD [OF assms(1)])
  then have r1: "rnd (?q * 100) \<le> 100" using assms(4) by simp
  from True r0 r1 show ?thesis
    by (simp add: success_rate_def truediv_def float_mul_def)
qed

lemma counts_of_a_run:
  assumes "run_tests ts ([], s0) = (out, s)" "self s0 = init"
  shows "0 \<le> passed_tests (self s)" "passed_tests (self s) \<le> total_tests (self s)"
    "0 \<le> total_tests (self s)"
proof -
  from run_tests_counts_all [OF assms(1)] assms(2)
  have a: "0 \<le> passed_tests (self s)" and b: "0 \<le> failed_tests (self s)"
    and c: "0 \<le> total_tests (self s)"
    and d: "passed_tests (self s) + failed_tests (self s) \<le> total_tests (self s)"
    by (simp_all add: init_def)
  from a show "0 \<le> passed_tests (self s)" .
  from b d show "passed_tests (self s) \<le> total_tests (self s)" by simp
  from c show "0 \<le> total_tests (self s)" .
qed


text \<open>
  Claim C7. For the counts that a run of the suite from a fresh tester produces, the
  success rate is a number between 0 and 100, for every rounding of floats that is
  monotone and leaves 0, 1 and 100 as they are; it is 0, without a division, when no
  test was run; and it is 75 for 3 passed out of 4, since 0.75 and 75 are floats.
\<close>

theorem success_rate_bounds:
  assumes "mono rnd" "rnd 0 = 0" "rnd 1 = 1" "rnd 100 = 100"
    and "run_tests ts ([], s0) = (out, s)" "self s0 = init"
  shows "(\<exists>r. success_rate rnd (passed_tests (self s)) (total_tests (self s)) = Inr r
              \<and> 0 \<le> r \<and> r \<le> 100)
       \<and> (total_tests (self s) = 0 \<longrightarrow>
            success_rate rnd (passed_tests (self s)) (total_tests (self s)) = Inr 0)
       \<and> success_rate rnd 0 0 = Inr 0
       \<and> (rnd (3 / 4) = 3 / 4 \<and> rnd 75 = 75 \<longrightarrow> success_rate rnd 3 4 = Inr 75)"
proof -
  note c = counts_of_a_run [OF assms(5,6)]
  have "\<exists>r. success_rate rnd (passed_tests (self s)) (total_tests (self s)) = Inr r
              \<and> 0 \<le> r \<and> r \<le> 100"
    using assms(1-4) c(1,2) by (rule success_rate_range)
  moreover have "success_rate rnd 3 4 = Inr 75" if "rnd (3 / 4) = 3 / 4 \<and> rnd 75 = 75"
  proof -
    from that have a: "rnd (3 / 4) = 3 / 4" and b: "rnd 75 = 75" by blast+
    have "success_rate rnd 3 4 = Inr (rnd (rnd (3 / 4) * 100))"
      by (simp add: success_rate_def truediv_def float_mul_def)
    also have "rnd (3 / 4) * 100 = 75" unfolding a by simp
    finally show ?thesis unfolding b .
  qed
  ultimately show ?thesis by (simp add: success_rate_zero_total)
qed


lemma mono_round52: "mono round52"
proof (rule monoI)
  fix x y :: rat
  assume "x \<le> y"
  then have "x * 2 ^ 52 \<le> y * 2 ^ 52" by simp
  then have "round (x * 2 ^ 52) \<le> round (y * 2 ^ 52)" by (rule round_mono)
  then show "round52 x \<le> round52 y"
    by (simp add: round52_def divide_right_mono)
qed

lemma round52_values:
  "round52 0 = 0" "round52 1 = 1" "round52 100 = 100" "round52 (3 / 4) = 3 / 4" "round52 75 = 75"
  by (simp_all add: round52_def)

theorem success_rate_bounds_witness:
  "success_rate round52 (passed_tests (self (snd (run_tests small_suite ([], fresh [])))))
       (total_tests (self (snd (run_tests small_suite ([], fresh []))))) = Inr 75
   \<and> (0::rat) \<le> 75 \<and> (75::rat) \<le> 100
   \<and> success_rate round52 0 0 = Inr 0
   \<and> success_rate round52 3 4 = Inr 75"
proof -
  have i: "self (fresh ([]::string list)) = init" by (simp add: fresh_def)
  from success_rate_bounds [OF mono_round52 round52_values(1-3) small_suite_run i]
  show ?thesis
    using small_suite_run round52_values(4,5) by simp
qed

end
